theory Spec2Isabelle
  imports Main "HOL-Library.Char_ord" "HOL-Library.List_Lexorder"
begin

section \<open>JavaScript values used by the client\<close>

text \<open>
  The client is one React component (\<^verbatim>\<open>App\<close> in \<^verbatim>\<open>index.tsx\<close>). A string is the
  list of its code units, written as characters: the strings of this development are those
  whose code units are below 256, and the string constants of the source stand here
  without the emoji that some of them contain and the space next to it. \<^verbatim>\<open>undefined\<close> and \<^verbatim>\<open>null\<close> are
  \<open>None\<close>; an exception is a value of the type below, on the left of a sum.
\<close>

datatype js_error = TypeError

text \<open>
  \<^verbatim>\<open>interface WardrobeItem\<close>. The optional fields are \<open>option\<close>s; the fields that no
  function of this development reads (colour, pattern, fabric, style, tags, creation time)
  are left out.
\<close>

record WardrobeItem =
  item_id :: string
  user_id :: string
  image_base64 :: string
  exact_item_name :: "string option"
  category :: "string option"

subsection \<open>Objects used as dictionaries\<close>

text \<open>
  \<^verbatim>\<open>const grouped: { [key: string]: WardrobeItem[] } = {}\<close> is an ordinary object: its own
  properties are the map below, and a read \<^verbatim>\<open>grouped[k]\<close> of a key that is not an own
  property falls through to \<^verbatim>\<open>Object.prototype\<close>. A value stored in such an object
  is an array of items; a value read from it may also be a member of the prototype.
\<close>

datatype group_value = Items "WardrobeItem list" | PrototypeMember

type_synonym grouped_wardrobe = "string \<rightharpoonup> group_value"

definition objectPrototypeKeys :: "string list" where
  "objectPrototypeKeys =
     [''constructor'', ''hasOwnProperty'', ''isPrototypeOf'', ''propertyIsEnumerable'',
      ''toLocaleString'', ''toString'', ''valueOf'', ''__proto__'',
      ''__defineGetter__'', ''__defineSetter__'', ''__lookupGetter__'', ''__lookupSetter__'']"

text \<open>\<^verbatim>\<open>obj[k]\<close>: \<open>None\<close> is \<^verbatim>\<open>undefined\<close>; every other result is truthy.\<close>

definition getProp :: "grouped_wardrobe \<Rightarrow> string \<Rightarrow> group_value option" where
  "getProp obj k =
     (case obj k of
        Some v \<Rightarrow> Some v
      | None \<Rightarrow> if k \<in> set objectPrototypeKeys then Some PrototypeMember else None)"

text \<open>
  \<^verbatim>\<open>obj[k] = v\<close>: creates or overwrites an own property, except for the key
  \<^verbatim>\<open>__proto__\<close>, whose assignment goes to the prototype's setter and adds no own property.
\<close>

definition setProp :: "(string \<rightharpoonup> 'a) \<Rightarrow> string \<Rightarrow> 'a \<Rightarrow> (string \<rightharpoonup> 'a)" where
  "setProp obj k v = (if k = ''__proto__'' then obj else obj(k \<mapsto> v))"

section \<open>Wardrobe display: grouping, categories, filter\<close>

text \<open>\<^verbatim>\<open>item.category || 'Other'\<close>: a missing and an empty category are both falsy.\<close>

definition categoryKey :: "WardrobeItem \<Rightarrow> string" where
  "categoryKey item =
     (case category item of
        None \<Rightarrow> ''Other''
      | Some c \<Rightarrow> if c = [] then ''Other'' else c)"

text \<open>
  The body of the \<^verbatim>\<open>forEach\<close> callback of \<^verbatim>\<open>getGroupedWardrobe\<close>:
  \<^verbatim>\<open>if (!grouped[category]) grouped[category] = []; grouped[category].push(item)\<close>.
  A prototype member has no \<^verbatim>\<open>push\<close>, so the call raises a TypeError.
\<close>

definition groupItem :: "grouped_wardrobe \<Rightarrow> WardrobeItem \<Rightarrow> js_error + grouped_wardrobe" where
  "groupItem grouped item =
     (let c = categoryKey item;
          grouped1 = (if getProp grouped c = None then setProp grouped c (Items []) else grouped)
      in case getProp grouped1 c of
           Some (Items xs) \<Rightarrow> Inr (grouped1(c \<mapsto> Items (xs @ [item])))
         | Some PrototypeMember \<Rightarrow> Inl TypeError
         | None \<Rightarrow> Inl TypeError)"

fun forEachGroup :: "grouped_wardrobe \<Rightarrow> WardrobeItem list \<Rightarrow> js_error + grouped_wardrobe" where
  "forEachGroup grouped [] = Inr grouped"
| "forEachGroup grouped (item # rest) =
     (case groupItem grouped item of
        Inl e \<Rightarrow> Inl e
      | Inr grouped' \<Rightarrow> forEachGroup grouped' rest)"

definition getGroupedWardrobe :: "WardrobeItem list \<Rightarrow> js_error + grouped_wardrobe" where
  "getGroupedWardrobe wardrobe = forEachGroup Map.empty wardrobe"

text \<open>
  \<^verbatim>\<open>getAvailableCategories\<close>: a \<^verbatim>\<open>Set\<close> keeps the first insertion of each value;
  \<^verbatim>\<open>Array.from(categories).sort()\<close> sorts the strings by their code units.
\<close>

definition setAdd :: "string list \<Rightarrow> string \<Rightarrow> string list" where
  "setAdd s x = (if x \<in> set s then s else s @ [x])"

definition getAvailableCategories :: "WardrobeItem list \<Rightarrow> string list" where
  "getAvailableCategories wardrobe = sort (foldl setAdd [] (map categoryKey wardrobe))"

text \<open>\<^verbatim>\<open>getFilteredWardrobe\<close>, with the state it reads as arguments.\<close>

definition getFilteredWardrobe :: "string \<Rightarrow> WardrobeItem list \<Rightarrow> js_error + grouped_wardrobe" where
  "getFilteredWardrobe selectedCategoryFilter wardrobe =
     (if selectedCategoryFilter = ''all'' then getGroupedWardrobe wardrobe
      else case getGroupedWardrobe wardrobe of
             Inl e \<Rightarrow> Inl e
           | Inr allGrouped \<Rightarrow>
               (case getProp allGrouped selectedCategoryFilter of
                  None \<Rightarrow> Inr Map.empty
                | Some v \<Rightarrow> Inr (setProp Map.empty selectedCategoryFilter v)))"


section \<open>Dates\<close>

text \<open>
  A \<^verbatim>\<open>Date\<close> is its time value: milliseconds since 1970-01-01T00:00:00Z. All time
  values are in the range of valid dates. The definitions follow the date algorithms of
  the ECMAScript specification. The local time zone is given by its offset from UTC in
  minutes, counted to the east: \<open>offsetAt\<close> is the offset in force at an instant,
  \<open>offsetAtLocal\<close> the offset in force at a local time (\<^verbatim>\<open>LocalTZA(t, true)\<close> and
  \<^verbatim>\<open>LocalTZA(t, false)\<close> of the specification). A zone without daylight saving has one
  offset.
\<close>

type_synonym time_value = int

record zone =
  offsetAt :: "time_value \<Rightarrow> int"
  offsetAtLocal :: "time_value \<Rightarrow> int"

definition fixedZone :: "int \<Rightarrow> zone" where
  "fixedZone minutes = \<lparr>offsetAt = (\<lambda>t. minutes), offsetAtLocal = (\<lambda>t. minutes)\<rparr>"

record clock =
  now :: time_value
  timeZone :: zone

definition msPerDay :: int where "msPerDay = 86400000"

definition msPerMinute :: int where "msPerMinute = 60000"

definition Day :: "time_value \<Rightarrow> int" where
  "Day t = t div msPerDay"

definition TimeWithinDay :: "time_value \<Rightarrow> int" where
  "TimeWithinDay t = t mod msPerDay"

definition DayFromYear :: "int \<Rightarrow> int" where
  "DayFromYear y =
     365 * (y - 1970) + (y - 1969) div 4 - (y - 1901) div 100 + (y - 1601) div 400"

text \<open>The year of a day number: an estimate from the mean year length, corrected by one.\<close>

definition YearFromDay :: "int \<Rightarrow> int" where
  "YearFromDay d =
     (let y0 = 1970 + (d * 400) div 146097
      in if d < DayFromYear y0 then y0 - 1
         else if DayFromYear (y0 + 1) \<le> d then y0 + 1
         else y0)"

definition InLeapYear :: "int \<Rightarrow> bool" where
  "InLeapYear y \<longleftrightarrow> DayFromYear (y + 1) - DayFromYear y = 366"

text \<open>The day within the year on which month \<open>m\<close> (0 to 11) starts.\<close>

definition monthStart :: "bool \<Rightarrow> nat \<Rightarrow> int" where
  "monthStart leap m =
     (let l = (if leap then 1 else 0)
      in [0, 31, 59 + l, 90 + l, 120 + l, 151 + l, 181 + l, 212 + l, 243 + l, 273 + l,
          304 + l, 334 + l] ! m)"

definition YearFromTime :: "time_value \<Rightarrow> int" where
  "YearFromTime t = YearFromDay (Day t)"

definition DayWithinYear :: "time_value \<Rightarrow> int" where
  "DayWithinYear t = Day t - DayFromYear (YearFromTime t)"

definition MonthFromTime :: "time_value \<Rightarrow> nat" where
  "MonthFromTime t =
     (let leap = InLeapYear (YearFromTime t); d = DayWithinYear t
      in length (filter (\<lambda>m. monthStart leap m \<le> d) [1..<12]))"

definition DateFromTime :: "time_value \<Rightarrow> int" where
  "DateFromTime t =
     DayWithinYear t - monthStart (InLeapYear (YearFromTime t)) (MonthFromTime t) + 1"

text \<open>0 is Sunday; 1970-01-01 was a Thursday.\<close>

definition WeekDay :: "time_value \<Rightarrow> int" where
  "WeekDay t = (Day t + 4) mod 7"

definition MakeDay :: "int \<Rightarrow> int \<Rightarrow> int \<Rightarrow> int" where
  "MakeDay year month dt =
     (let ym = year + month div 12; mn = nat (month mod 12)
      in DayFromYear ym + monthStart (InLeapYear ym) mn + dt - 1)"

definition MakeDate :: "int \<Rightarrow> int \<Rightarrow> time_value" where
  "MakeDate day time = day * msPerDay + time"

definition LocalTime :: "zone \<Rightarrow> time_value \<Rightarrow> time_value" where
  "LocalTime tz t = t + offsetAt tz t * msPerMinute"

definition UTC :: "zone \<Rightarrow> time_value \<Rightarrow> time_value" where
  "UTC tz t = t - offsetAtLocal tz t * msPerMinute"

text \<open>\<^verbatim>\<open>date.getDate()\<close>, \<^verbatim>\<open>date.getDay()\<close> and \<^verbatim>\<open>date.setDate(dt)\<close> work in local time.\<close>

definition getDate :: "zone \<Rightarrow> time_value \<Rightarrow> int" where
  "getDate tz t = DateFromTime (LocalTime tz t)"

definition getDay :: "zone \<Rightarrow> time_value \<Rightarrow> int" where
  "getDay tz t = WeekDay (LocalTime tz t)"

definition setDate :: "zone \<Rightarrow> time_value \<Rightarrow> int \<Rightarrow> time_value" where
  "setDate tz t dt =
     (let lt = LocalTime tz t
      in UTC tz (MakeDate (MakeDay (YearFromTime lt) (int (MonthFromTime lt)) dt)
                          (TimeWithinDay lt)))"

subsection \<open>Numbers as strings\<close>

definition digitChar :: "int \<Rightarrow> char" where
  "digitChar n = ''0123456789'' ! nat n"

definition pad2 :: "int \<Rightarrow> string" where
  "pad2 n = [digitChar (n div 10 mod 10), digitChar (n mod 10)]"

definition pad4 :: "int \<Rightarrow> string" where
  "pad4 n = pad2 (n div 100 mod 100) @ pad2 (n mod 100)"

definition pad6 :: "int \<Rightarrow> string" where
  "pad6 n = pad2 (n div 10000 mod 100) @ pad4 (n mod 10000)"

text \<open>
  The date part of \<^verbatim>\<open>toISOString()\<close>, which is in UTC: four digits for the years 0 to
  9999, a sign and six digits otherwise.
\<close>

definition isoYear :: "int \<Rightarrow> string" where
  "isoYear y =
     (if 0 \<le> y \<and> y \<le> 9999 then pad4 y
      else if y < 0 then CHR ''-'' # pad6 (- y)
      else CHR ''+'' # pad6 y)"

definition isoDate :: "time_value \<Rightarrow> string" where
  "isoDate t =
     isoYear (YearFromTime t) @ ''-'' @ pad2 (int (MonthFromTime t) + 1) @ ''-'' @
     pad2 (DateFromTime t)"

text \<open>\<^verbatim>\<open>n.toString()\<close> for an integer \<open>n\<close> (below \<open>10^21\<close> in absolute value).\<close>

fun digitsOf :: "nat \<Rightarrow> string" where
  "digitsOf n =
     (if n < 10 then [digitChar (int n)]
      else digitsOf (n div 10) @ [digitChar (int (n mod 10))])"

declare digitsOf.simps [simp del]

definition toString :: "int \<Rightarrow> string" where
  "toString n = (if n < 0 then CHR ''-'' # digitsOf (nat (- n)) else digitsOf (nat n))"

text \<open>
  The white space and line terminators of ECMAScript among the code units below 256: tab,
  line feed, vertical tab, form feed, carriage return, space and no-break space.
\<close>

definition isSpace :: "char \<Rightarrow> bool" where
  "isSpace c \<longleftrightarrow>
     c \<in> {CHR 0x09, CHR 0x0A, CHR 0x0B, CHR 0x0C, CHR 0x0D, CHR 0x20, CHR 0xA0}"

text \<open>
  \<^verbatim>\<open>parseInt(str)\<close> without a radix: leading white space, an optional sign, an optional
  \<^verbatim>\<open>0x\<close> prefix, then the longest run of digits; \<open>None\<close> stands for \<^verbatim>\<open>NaN\<close>. The
  result is exact (the rounding of integers above \<open>2^53\<close> is not modelled).
\<close>

definition hexDigits :: "(char \<times> int) list" where
  "hexDigits =
     [(CHR ''0'', 0), (CHR ''1'', 1), (CHR ''2'', 2), (CHR ''3'', 3), (CHR ''4'', 4),
      (CHR ''5'', 5), (CHR ''6'', 6), (CHR ''7'', 7), (CHR ''8'', 8), (CHR ''9'', 9),
      (CHR ''a'', 10), (CHR ''b'', 11), (CHR ''c'', 12), (CHR ''d'', 13), (CHR ''e'', 14),
      (CHR ''f'', 15), (CHR ''A'', 10), (CHR ''B'', 11), (CHR ''C'', 12), (CHR ''D'', 13),
      (CHR ''E'', 14), (CHR ''F'', 15)]"

definition digitValue :: "int \<Rightarrow> char \<Rightarrow> int option" where
  "digitValue radix c =
     (case map_of hexDigits c of
        None \<Rightarrow> None
      | Some v \<Rightarrow> if v < radix then Some v else None)"

fun parseDigits :: "int \<Rightarrow> int option \<Rightarrow> string \<Rightarrow> int option" where
  "parseDigits radix acc [] = acc"
| "parseDigits radix acc (c # cs) =
     (case digitValue radix c of
        None \<Rightarrow> acc
      | Some v \<Rightarrow> parseDigits radix (Some ((case acc of None \<Rightarrow> 0 | Some a \<Rightarrow> a) * radix + v)) cs)"

definition parseInt :: "string \<Rightarrow> int option" where
  "parseInt str =
     (let s1 = dropWhile isSpace str;
          neg = (case s1 of c # _ \<Rightarrow> c = CHR ''-'' | [] \<Rightarrow> False);
          s2 = (case s1 of c # r \<Rightarrow> if c = CHR ''-'' \<or> c = CHR ''+'' then r else s1 | [] \<Rightarrow> []);
          hex = (take 2 s2 = ''0x'' \<or> take 2 s2 = ''0X'');
          r = (if hex then parseDigits 16 None (drop 2 s2) else parseDigits 10 None s2)
      in map_option (\<lambda>v. if neg then - v else v) r)"

subsection \<open>The planner's week\<close>

text \<open>
  \<^verbatim>\<open>getWeekDates\<close>: \<^verbatim>\<open>new Date()\<close> is the clock's \<open>now\<close>; the loop over
  \<^verbatim>\<open>i = 0, ..., 6\<close> is the \<open>map\<close>.
\<close>

definition getWeekDates :: "clock \<Rightarrow> int \<Rightarrow> time_value list" where
  "getWeekDates clk weekOffset =
     (let tz = timeZone clk;
          today = now clk;
          startOfWeek = setDate tz today (getDate tz today - getDay tz today + weekOffset * 7)
      in map (\<lambda>i. setDate tz startOfWeek (getDate tz startOfWeek + int i)) [0..<7])"

text \<open>\<^verbatim>\<open>formatDate\<close>: \<^verbatim>\<open>date.toISOString().split('T')[0]\<close>.\<close>

definition formatDate :: "time_value \<Rightarrow> string" where
  "formatDate date = isoDate date"

text \<open>The date of the same instant on the local calendar, as the day cards show it.\<close>

definition localDate :: "zone \<Rightarrow> time_value \<Rightarrow> string" where
  "localDate tz date = isoDate (LocalTime tz date)"


section \<open>Component state and effects\<close>

text \<open>\<^verbatim>\<open>interface User\<close> (the profile fields are left out) and \<^verbatim>\<open>interface ChatMessage\<close>.
  A message built from a response can have an \<^verbatim>\<open>undefined\<close> id or text, so both are
  \<open>option\<close>s; the timestamp is the time value whose ISO string the source stores.\<close>

record User =
  uid :: string
  uname :: string

record ChatMessage =
  msg_id :: "string option"
  msg_user_id :: string
  message :: "string option"
  is_user :: bool
  timestamp :: time_value
  msg_image_base64 :: "string option"
  isTyping :: "bool option"

text \<open>Values the client stores without looking inside (\<^verbatim>\<open>any\<close>).\<close>

datatype json = JNull | JBool bool | JNum int | JStr string | JArr "json list"
  | JObj "(string \<times> json) list"

text \<open>The manual outfit builder's selection, and the item references of a planned outfit.\<close>

record SelectedOutfit =
  top_item :: "WardrobeItem option"
  bottom_item :: "WardrobeItem option"
  layering_item :: "WardrobeItem option"
  shoes_item :: "WardrobeItem option"

record OutfitItemIds =
  top_id :: "string option"
  bottom_id :: "string option"
  layering_id :: "string option"
  shoes_id :: "string option"

text \<open>
  A planned outfit as sent to and received from the planner endpoints, and the outfit shown
  on a day card (\<^verbatim>\<open>{...plannedOutfit, items: outfitItems}\<close>).
\<close>

record PlannedOutfit =
  date :: string
  occasion :: string
  event_name :: "string option"
  items :: OutfitItemIds

record ShownOutfit =
  shown_date :: string
  shown_occasion :: string
  shown_event_name :: "string option"
  shown_items :: "WardrobeItem list"

text \<open>The \<^verbatim>\<open>useState\<close> cells of \<^verbatim>\<open>App\<close> that the modelled functions read or write.\<close>

record AppState =
  user :: "User option"
  token :: "string option"
  currentTab :: string
  selectedWeek :: int
  weeklyOutfits :: "string \<rightharpoonup> ShownOutfit"
  selectedOutfitDate :: string
  showManualOutfitBuilder :: bool
  selectedOutfit :: SelectedOutfit
  outfitOccasion :: string
  outfitEvent :: string
  loading :: bool
  wardrobe :: "WardrobeItem list"
  chatMessages :: "ChatMessage list"
  chatInput :: string
  chatImage :: "string option"
  lastValidation :: "json option"
  selectedCategoryFilter :: string
  generatedOutfits :: "json list"

definition emptyOutfit :: SelectedOutfit where
  "emptyOutfit = \<lparr>top_item = None, bottom_item = None, layering_item = None, shoes_item = None\<rparr>"

text \<open>The initial values of the cells, as the first render has them.\<close>

definition initialState :: AppState where
  "initialState =
     \<lparr>user = None, token = None, currentTab = ''chat'', selectedWeek = 0,
      weeklyOutfits = Map.empty,
      selectedOutfitDate = [], showManualOutfitBuilder = False, selectedOutfit = emptyOutfit,
      outfitOccasion = [], outfitEvent = [], loading = False, wardrobe = [],
      chatMessages = [], chatInput = [], chatImage = None, lastValidation = None,
      selectedCategoryFilter = ''all'', generatedOutfits = []\<rparr>"

text \<open>
  The requests the client sends. A request carries the token of its Authorization header
  and the parts of its URL or body that the properties below speak about; image data is
  left out.
\<close>

datatype request =
    GetAuthMe string
  | DeleteChatClear string
  | GetChatHistory string
  | GetWardrobe string
  | PostWardrobe "string option" "string list"
  | PostValidateOutfit "string option"
  | DeleteWardrobeItem string string
  | PostPlannerOutfit string PlannedOutfit
  | GetPlannerOutfits string string string
  | PostChat "string option" string

text \<open>
  The world outside the component: the AsyncStorage contents (\<open>storageFails\<close> says that
  its calls reject), the requests sent so far and the titles of the alerts shown.
\<close>

record World =
  storage :: "string \<rightharpoonup> string"
  storageFails :: bool
  sent :: "request list"
  alerts :: "string list"

definition send :: "request \<Rightarrow> World \<Rightarrow> World" where
  "send r w = w\<lparr>sent := sent w @ [r]\<rparr>"

definition alert :: "string \<Rightarrow> World \<Rightarrow> World" where
  "alert title w = w\<lparr>alerts := alerts w @ [title]\<rparr>"

text \<open>
  The outcome of \<^verbatim>\<open>await fetch(...)\<close>: the promise rejects, or it yields a status and a
  body; the body is \<open>None\<close> when \<^verbatim>\<open>response.json()\<close> rejects.
\<close>

datatype 'a response = Rejected | Response nat "'a option"

definition ok :: "nat \<Rightarrow> bool" where
  "ok status \<longleftrightarrow> 200 \<le> status \<and> status \<le> 299"

text \<open>Truthiness of a string that may be \<^verbatim>\<open>null\<close>: the empty string is falsy.\<close>

definition truthy :: "string option \<Rightarrow> bool" where
  "truthy x \<longleftrightarrow> x \<noteq> None \<and> x \<noteq> Some []"

text \<open>
  Every function of the component is a closure of one render. It reads the state \<open>c\<close> of
  that render, also after it has called a setter, and so does every function it calls. The
  setters build the next state: a function below takes the state built so far and the
  world as a pair, and returns both. A call that the source does not await is run to its
  end where it is made; the handler of an alert's button runs when the user presses it,
  after the function that put up the alert has returned.
\<close>

section \<open>Wardrobe requests\<close>

definition loadWardrobe ::
  "AppState \<Rightarrow> WardrobeItem list response \<Rightarrow> AppState \<times> World \<Rightarrow> AppState \<times> World" where
  "loadWardrobe c resp = (\<lambda>(s, w).
     case token c of
       None \<Rightarrow> (s, w)
     | Some tok \<Rightarrow>
         if tok = [] then (s, w)
         else
           let s1 = s\<lparr>loading := True\<rparr>;
               w1 = send (GetWardrobe tok) w;
               (s2, w2) =
                 (case resp of
                    Rejected \<Rightarrow> (s1, w1)
                  | Response status body \<Rightarrow>
                      if ok status then
                        (case body of
                           None \<Rightarrow> (s1, w1)
                         | Some wardrobeItems \<Rightarrow> (s1\<lparr>wardrobe := wardrobeItems\<rparr>, w1))
                      else if status = 401 then
                        (if storageFails w1 then (s1, w1)
                         else (s1\<lparr>token := None, user := None\<rparr>,
                               w1\<lparr>storage := (storage w1)(''token'' := None)\<rparr>))
                      else (s1, w1))
           in (s2\<lparr>loading := False\<rparr>, w2))"

text \<open>
  \<^verbatim>\<open>addWardrobeItems\<close>. \<open>granted\<close> is the outcome of the permission request (\<open>None\<close>: it
  rejects), \<open>picked\<close> that of the image picker, \<open>post\<close> the answer to the POST and \<open>reload\<close>
  the answer to the reload of the wardrobe. The success message reads
  \<^verbatim>\<open>result.items_added\<close>, which raises a TypeError when the body is \<^verbatim>\<open>null\<close>; the
  \<^verbatim>\<open>catch\<close> then shows the error alert instead.
\<close>

datatype picker_result = PickerRejected | Canceled | NoAsset | Asset "string option"

definition addWardrobeItems ::
  "AppState \<Rightarrow> bool option \<Rightarrow> picker_result \<Rightarrow> json response \<Rightarrow> WardrobeItem list response \<Rightarrow>
   AppState \<times> World \<Rightarrow> AppState \<times> World" where
  "addWardrobeItems c granted picked post reload = (\<lambda>(s, w).
     case granted of
       None \<Rightarrow> (s\<lparr>loading := False\<rparr>, alert ''Error'' w)
     | Some False \<Rightarrow> (s\<lparr>loading := False\<rparr>, alert ''Permission needed'' w)
     | Some True \<Rightarrow>
         let s1 = s\<lparr>loading := True\<rparr>;
             failed = (\<lambda>w'. (s1\<lparr>loading := False\<rparr>, alert ''Error'' w'))
         in case picked of
              PickerRejected \<Rightarrow> failed w
            | Canceled \<Rightarrow> (s1\<lparr>loading := False\<rparr>, w)
            | NoAsset \<Rightarrow> (s1\<lparr>loading := False\<rparr>, w)
            | Asset base64 \<Rightarrow>
                if \<not> truthy base64 then (s1\<lparr>loading := False\<rparr>, w)
                else
                  let w1 = send (PostWardrobe (token c) []) w
                  in case post of
                       Rejected \<Rightarrow> failed w1
                     | Response status body \<Rightarrow>
                         if ok status then
                           (case body of
                              None \<Rightarrow> failed w1
                            | Some result \<Rightarrow>
                                let (s2, w2) = loadWardrobe c reload (s1, w1);
                                    s3 = s2\<lparr>generatedOutfits := []\<rparr>;
                                    w3 = alert (if result = JNull then ''Error''
                                                else ''Upload Complete!'') w2
                                in (s3\<lparr>loading := False\<rparr>, w3))
                         else failed w1)"

definition deleteWardrobeItem ::
  "AppState \<Rightarrow> string \<Rightarrow> unit response \<Rightarrow> WardrobeItem list response \<Rightarrow>
   AppState \<times> World \<Rightarrow> AppState \<times> World" where
  "deleteWardrobeItem c itemId resp reload = (\<lambda>(s, w).
     let s1 = s\<lparr>wardrobe := filter (\<lambda>item. item_id item \<noteq> itemId) (wardrobe s)\<rparr>;
         restore = (\<lambda>w'. let (s2, w2) = loadWardrobe c reload (s1, w')
                         in (s2, alert ''Error'' w2))
     in case token c of
          None \<Rightarrow> restore w
        | Some tok \<Rightarrow>
            if tok = [] then restore w
            else
              let w1 = send (DeleteWardrobeItem tok itemId) w
              in case resp of
                   Rejected \<Rightarrow> restore w1
                 | Response status body \<Rightarrow>
                     if ok status then (s1\<lparr>generatedOutfits := []\<rparr>, w1)
                     else restore w1)"

text \<open>
  The two extraction flows. \<^verbatim>\<open>handleItemExtractionPermission\<close> and
  \<^verbatim>\<open>handleOutfitExtractionPermission\<close> show an alert with two buttons and return. What the
  user does with the alert afterwards is an \<open>alert_choice\<close>; only the accepting button has a
  handler (\<^verbatim>\<open>onPress\<close>), which posts the image to the wardrobe endpoint. The handlers are
  \<open>extractItems\<close> and \<open>extractOutfitItems\<close>; like the function that made them, they are
  closures of the render \<open>c\<close>.
\<close>

datatype alert_choice = Dismissed | Declined | Accepted

definition answerAlert ::
  "alert_choice \<Rightarrow> (AppState \<times> World \<Rightarrow> AppState \<times> World) \<Rightarrow>
   AppState \<times> World \<Rightarrow> AppState \<times> World" where
  "answerAlert choice onPress = (case choice of Accepted \<Rightarrow> onPress | _ \<Rightarrow> id)"

definition handleItemExtractionPermission ::
  "AppState \<Rightarrow> string \<Rightarrow> string \<Rightarrow> AppState \<times> World \<Rightarrow> AppState \<times> World" where
  "handleItemExtractionPermission c imageBase64 context = (\<lambda>(s, w).
     (s, alert ''Extract Wardrobe Items'' w))"

definition extractItems ::
  "AppState \<Rightarrow> string \<Rightarrow> string \<Rightarrow> json response \<Rightarrow> WardrobeItem list response \<Rightarrow>
   AppState \<times> World \<Rightarrow> AppState \<times> World" where
  "extractItems c imageBase64 context post reload = (\<lambda>(s, w).
     let s1 = s\<lparr>loading := True\<rparr>;
         w1 = send (PostWardrobe (token c) [''chat-extracted'', take 20 context]) w;
         failed = (s1\<lparr>loading := False\<rparr>, alert ''Error'' w1)
     in case post of
          Rejected \<Rightarrow> failed
        | Response status body \<Rightarrow>
            if ok status then
              (case body of
                 None \<Rightarrow> failed
               | Some result \<Rightarrow>
                   let (s2, w2) = loadWardrobe c reload (s1, w1)
                   in (s2\<lparr>loading := False\<rparr>,
                       alert (if result = JNull then ''Error'' else ''Items Extracted!'') w2))
            else failed)"

definition handleOutfitExtractionPermission ::
  "AppState \<Rightarrow> string \<Rightarrow> AppState \<times> World \<Rightarrow> AppState \<times> World" where
  "handleOutfitExtractionPermission c imageBase64 = (\<lambda>(s, w).
     (s, alert ''Add Items to Wardrobe'' w))"

definition extractOutfitItems ::
  "AppState \<Rightarrow> string \<Rightarrow> json response \<Rightarrow> WardrobeItem list response \<Rightarrow>
   AppState \<times> World \<Rightarrow> AppState \<times> World" where
  "extractOutfitItems c imageBase64 post reload = (\<lambda>(s, w).
     let s1 = s\<lparr>loading := True\<rparr>;
         w1 = send (PostWardrobe (token c) [''validated-outfit'', ''outfit-extract'']) w;
         failed = (s1\<lparr>loading := False\<rparr>, alert ''Error'' w1)
     in case post of
          Rejected \<Rightarrow> failed
        | Response status body \<Rightarrow>
            if ok status then
              (case body of
                 None \<Rightarrow> failed
               | Some result \<Rightarrow>
                   let (s2, w2) = loadWardrobe c reload (s1, w1)
                   in (s2\<lparr>loading := False\<rparr>,
                       alert (if result = JNull then ''Error'' else ''Items Added!'') w2))
            else failed)"

text \<open>
  \<^verbatim>\<open>validateOutfit\<close>: the picked photo is posted for validation, and after a successful
  answer the user is asked whether its items shall be added to the wardrobe. The function
  ends when the alert is up; the user's answer \<open>choice\<close> comes after that.
\<close>

definition validateOutfit ::
  "AppState \<Rightarrow> picker_result \<Rightarrow> json response \<Rightarrow> alert_choice \<Rightarrow> json response \<Rightarrow>
   WardrobeItem list response \<Rightarrow> AppState \<times> World \<Rightarrow> AppState \<times> World" where
  "validateOutfit c picked validated choice post reload = (\<lambda>(s, w).
     case picked of
       PickerRejected \<Rightarrow> (s\<lparr>loading := False\<rparr>, alert ''Error'' w)
     | Canceled \<Rightarrow> (s\<lparr>loading := False\<rparr>, w)
     | NoAsset \<Rightarrow> (s\<lparr>loading := False\<rparr>, w)
     | Asset base64 \<Rightarrow>
         (case base64 of
            None \<Rightarrow> (s\<lparr>loading := False\<rparr>, w)
          | Some imageBase64 \<Rightarrow>
              if imageBase64 = [] then (s\<lparr>loading := False\<rparr>, w)
              else
                let s1 = s\<lparr>loading := True\<rparr>;
                    w1 = send (PostValidateOutfit (token c)) w;
                    failed = (s1\<lparr>loading := False\<rparr>, alert ''Error'' w1)
                in case validated of
                     Rejected \<Rightarrow> failed
                   | Response status body \<Rightarrow>
                       if ok status then
                         (case body of
                            None \<Rightarrow> failed
                          | Some validation \<Rightarrow>
                              let (s2, w2) =
                                    handleOutfitExtractionPermission c imageBase64
                                      (s1\<lparr>lastValidation := Some validation\<rparr>, w1)
                              in answerAlert choice (extractOutfitItems c imageBase64 post reload)
                                   (s2\<lparr>loading := False\<rparr>, w2))
                       else failed))"

section \<open>Planner\<close>

text \<open>\<^verbatim>\<open>selectedOutfit.top?.id || null\<close>: no item, or an item with an empty id, gives
  \<^verbatim>\<open>null\<close>.\<close>

definition idOrNull :: "WardrobeItem option \<Rightarrow> string option" where
  "idOrNull item =
     (case item of
        None \<Rightarrow> None
      | Some x \<Rightarrow> if item_id x = [] then None else Some (item_id x))"

text \<open>
  One of the four blocks of \<^verbatim>\<open>loadPlannedOutfits\<close> that turn an item reference into an
  item: \<^verbatim>\<open>if (ref) { const x = wardrobe.find(item => item.id === ref); if (x)
  outfitItems.push(x) }\<close>.
\<close>

definition pushResolved ::
  "WardrobeItem list \<Rightarrow> string option \<Rightarrow> WardrobeItem list \<Rightarrow> WardrobeItem list" where
  "pushResolved wardrobe' ref outfitItems =
     (if truthy ref then
        (case find (\<lambda>item. Some (item_id item) = ref) wardrobe' of
           None \<Rightarrow> outfitItems
         | Some x \<Rightarrow> outfitItems @ [x])
      else outfitItems)"

definition resolveItems :: "WardrobeItem list \<Rightarrow> OutfitItemIds \<Rightarrow> WardrobeItem list" where
  "resolveItems wardrobe' ids =
     pushResolved wardrobe' (shoes_id ids)
       (pushResolved wardrobe' (layering_id ids)
         (pushResolved wardrobe' (bottom_id ids)
           (pushResolved wardrobe' (top_id ids) [])))"

text \<open>The body of the loop over \<^verbatim>\<open>data.planned_outfits\<close>.\<close>

definition addPlanned ::
  "WardrobeItem list \<Rightarrow> (string \<rightharpoonup> ShownOutfit) \<Rightarrow> PlannedOutfit \<Rightarrow> (string \<rightharpoonup> ShownOutfit)" where
  "addPlanned wardrobe' outfitsMap plannedOutfit =
     setProp outfitsMap (date plannedOutfit)
       \<lparr>shown_date = date plannedOutfit, shown_occasion = occasion plannedOutfit,
        shown_event_name = event_name plannedOutfit,
        shown_items = resolveItems wardrobe' (items plannedOutfit)\<rparr>"

definition loadPlannedOutfits ::
  "AppState \<Rightarrow> clock \<Rightarrow> PlannedOutfit list response \<Rightarrow> AppState \<times> World \<Rightarrow> AppState \<times> World" where
  "loadPlannedOutfits c clk resp = (\<lambda>(s, w).
     case token c of
       None \<Rightarrow> (s, w)
     | Some tok \<Rightarrow>
         if tok = [] then (s, w)
         else
           let weekDates = getWeekDates clk (selectedWeek c);
               startDate = formatDate (weekDates ! 0);
               endDate = formatDate (weekDates ! 6);
               w1 = send (GetPlannerOutfits tok startDate endDate) w
           in case resp of
                Rejected \<Rightarrow> (s, w1)
              | Response status body \<Rightarrow>
                  if ok status then
                    (case body of
                       None \<Rightarrow> (s, w1)
                     | Some planned_outfits \<Rightarrow>
                         (s\<lparr>weeklyOutfits := foldl (addPlanned (wardrobe c)) Map.empty planned_outfits\<rparr>,
                          w1))
                  else (s, w1))"

definition savePlannedOutfit ::
  "AppState \<Rightarrow> clock \<Rightarrow> json response \<Rightarrow> PlannedOutfit list response \<Rightarrow>
   AppState \<times> World \<Rightarrow> AppState \<times> World" where
  "savePlannedOutfit c clk resp reload = (\<lambda>(s, w).
     case token c of
       None \<Rightarrow> (s, w)
     | Some tok \<Rightarrow>
         if tok = [] \<or> (top_item (selectedOutfit c) = None \<and> bottom_item (selectedOutfit c) = None)
         then (s, w)
         else
           let s1 = s\<lparr>loading := True\<rparr>;
               items' = \<lparr>top_id = idOrNull (top_item (selectedOutfit c)),
                         bottom_id = idOrNull (bottom_item (selectedOutfit c)),
                         layering_id = idOrNull (layering_item (selectedOutfit c)),
                         shoes_id = idOrNull (shoes_item (selectedOutfit c))\<rparr>;
               plannedOutfitData =
                 \<lparr>date = selectedOutfitDate c,
                  occasion = (if outfitOccasion c = [] then ''Casual'' else outfitOccasion c),
                  event_name = (if outfitEvent c = [] then None else Some (outfitEvent c)),
                  items = items'\<rparr>;
               w1 = send (PostPlannerOutfit tok plannedOutfitData) w;
               failed = (s1\<lparr>loading := False\<rparr>, alert ''Error'' w1)
           in case resp of
                Rejected \<Rightarrow> failed
              | Response status body \<Rightarrow>
                  (case body of
                     None \<Rightarrow> failed
                   | Some data \<Rightarrow>
                       if ok status then
                         let w2 = alert ''Success!'' w1;
                             s2 = s1\<lparr>selectedOutfit := emptyOutfit, outfitEvent := [],
                                     outfitOccasion := [], showManualOutfitBuilder := False\<rparr>;
                             (s3, w3) = loadPlannedOutfits c clk reload (s2, w2)
                         in (s3\<lparr>loading := False\<rparr>, w3)
                       else failed))"

text \<open>
  The effect that runs when the planner tab is opened or the week is changed (its
  dependencies are \<^verbatim>\<open>user\<close>, \<^verbatim>\<open>token\<close>, \<^verbatim>\<open>currentTab\<close> and \<^verbatim>\<open>selectedWeek\<close>):
  \<^verbatim>\<open>loadWardrobe(); // Ensure wardrobe is loaded first\<close> and then
  \<^verbatim>\<open>loadPlannedOutfits()\<close>. Neither call is awaited, so both requests are sent before an
  answer is there, and both functions are closures of the render \<open>c\<close> whose effect this
  is.
\<close>

definition plannerEffect ::
  "AppState \<Rightarrow> clock \<Rightarrow> WardrobeItem list response \<Rightarrow> PlannedOutfit list response \<Rightarrow>
   AppState \<times> World \<Rightarrow> AppState \<times> World" where
  "plannerEffect c clk reload planned = (\<lambda>(s, w).
     if user c \<noteq> None \<and> truthy (token c) \<and> currentTab c = ''planner'' then
       loadPlannedOutfits c clk planned (loadWardrobe c reload (s, w))
     else (s, w))"


section \<open>Chat\<close>

text \<open>
  \<^verbatim>\<open>initializeChatSession\<close>, and the effect with the dependency \<^verbatim>\<open>user\<close> that calls it;
  \<open>t\<close> is the clock.
\<close>

definition greetingMessage :: "User \<Rightarrow> time_value \<Rightarrow> ChatMessage" where
  "greetingMessage u t =
     \<lparr>msg_id = Some (''greeting-'' @ toString t), msg_user_id = uid u,
      message = Some (''Hi '' @ uname u @ '', I am Maya''),
      is_user = False, timestamp = t, msg_image_base64 = None, isTyping = Some False\<rparr>"

definition initializeChatSession :: "AppState \<Rightarrow> time_value \<Rightarrow> AppState \<Rightarrow> AppState" where
  "initializeChatSession c t s =
     (case user c of
        None \<Rightarrow> s
      | Some u \<Rightarrow> if chatMessages c = [] then s\<lparr>chatMessages := [greetingMessage u t]\<rparr> else s)"

definition chatSessionEffect :: "AppState \<Rightarrow> time_value \<Rightarrow> AppState \<Rightarrow> AppState" where
  "chatSessionEffect c t s =
     (if user c \<noteq> None \<and> chatMessages c = [] then initializeChatSession c t s else s)"

definition loadChatHistory ::
  "AppState \<Rightarrow> ChatMessage list response \<Rightarrow> AppState \<times> World \<Rightarrow> AppState \<times> World" where
  "loadChatHistory c resp = (\<lambda>(s, w).
     case token c of
       None \<Rightarrow> (s, w)
     | Some tok \<Rightarrow>
         if tok = [] then (s, w)
         else
           let w1 = send (GetChatHistory tok) w
           in case resp of
                Rejected \<Rightarrow> (s, w1)
              | Response status body \<Rightarrow>
                  if ok status then
                    (case body of
                       None \<Rightarrow> (s, w1)
                     | Some messages \<Rightarrow> (s\<lparr>chatMessages := messages\<rparr>, w1))
                  else if status = 401 then
                    (if storageFails w1 then (s, w1)
                     else (s\<lparr>token := None, user := None\<rparr>,
                           w1\<lparr>storage := (storage w1)(''token'' := None)\<rparr>))
                  else (s, w1))"

text \<open>
  \<^verbatim>\<open>handleAppReopenBehavior\<close>. \<open>currentTime\<close> is \<^verbatim>\<open>Date.now()\<close>. A comparison with
  \<^verbatim>\<open>NaN\<close> is false. The answer to the clearing request is not looked at, and its failure is
  caught on the spot; a rejected AsyncStorage call leads to the outer \<^verbatim>\<open>catch\<close>.
\<close>

definition sessionThreshold :: int where
  "sessionThreshold = 5 * 60 * 1000"

definition isNewSession :: "string option \<Rightarrow> time_value \<Rightarrow> bool" where
  "isNewSession lastSessionTime currentTime =
     (case lastSessionTime of
        None \<Rightarrow> True
      | Some str \<Rightarrow>
          if str = [] then True
          else (case parseInt str of
                  None \<Rightarrow> False
                | Some t \<Rightarrow> currentTime - t > sessionThreshold))"

definition handleAppReopenBehavior ::
  "AppState \<Rightarrow> time_value \<Rightarrow> ChatMessage list response \<Rightarrow> AppState \<times> World \<Rightarrow> AppState \<times> World" where
  "handleAppReopenBehavior c currentTime history = (\<lambda>(s, w).
     if storageFails w then loadChatHistory c history (s, w)
     else
       let lastSessionTime = storage w ''lastSessionTime'';
           (s1, w1) =
             (if isNewSession lastSessionTime currentTime then
                let w' = (case token c of
                            None \<Rightarrow> w
                          | Some tok \<Rightarrow> if tok = [] then w else send (DeleteChatClear tok) w)
                in (s\<lparr>chatMessages := [], chatInput := [], chatImage := None\<rparr>, w')
              else loadChatHistory c history (s, w))
       in (s1, w1\<lparr>storage := (storage w1)(''lastSessionTime'' \<mapsto> toString currentTime)\<rparr>))"

text \<open>
  \<^verbatim>\<open>checkAuthStatus\<close>, which the mount effect calls. It calls \<^verbatim>\<open>setToken\<close> and
  \<^verbatim>\<open>setUser\<close> and then \<^verbatim>\<open>handleAppReopenBehavior\<close>, which is the closure of the same
  render and so still reads that render's \<open>token\<close>. \<^verbatim>\<open>setUser\<close> brings about a new render,
  and \<^verbatim>\<open>handleAppReopenBehavior\<close> first waits for AsyncStorage: \<open>rendered\<close> is what the
  effects of the new render do to the state before \<^verbatim>\<open>handleAppReopenBehavior\<close> goes on.
\<close>

definition checkAuthStatus ::
  "AppState \<Rightarrow> time_value \<Rightarrow> User response \<Rightarrow> ChatMessage list response \<Rightarrow>
   (AppState \<Rightarrow> AppState) \<Rightarrow> AppState \<times> World \<Rightarrow> AppState \<times> World" where
  "checkAuthStatus c currentTime me history rendered = (\<lambda>(s, w).
     if storageFails w then (s, w)
     else
       case storage w ''token'' of
         None \<Rightarrow> (s, w)
       | Some storedToken \<Rightarrow>
           if storedToken = [] then (s, w)
           else
             let s1 = s\<lparr>token := Some storedToken\<rparr>;
                 w1 = send (GetAuthMe storedToken) w
             in case me of
                  Rejected \<Rightarrow> (s1, w1)
                | Response status body \<Rightarrow>
                    if ok status then
                      (case body of
                         None \<Rightarrow> (s1, w1)
                       | Some userData \<Rightarrow>
                           handleAppReopenBehavior c currentTime history
                             (rendered (s1\<lparr>user := Some userData\<rparr>), w1))
                    else (s1\<lparr>token := None\<rparr>,
                          w1\<lparr>storage := (storage w1)(''token'' := None)\<rparr>))"

text \<open>
  The start of the app. The mount effect runs \<^verbatim>\<open>checkAuthStatus\<close> of the first render.
  The render that \<^verbatim>\<open>setUser\<close> brings about runs the effects that depend on \<^verbatim>\<open>user\<close>, of
  which the one that sets up the chat session is modelled (the other one decides whether
  to show the onboarding). These effects and the rest of \<^verbatim>\<open>handleAppReopenBehavior\<close> can
  come in either order; \<open>effectTime\<close> is the clock when the effect runs.
\<close>

datatype start_order = EffectsFirst | ReopenFirst

definition appStart ::
  "start_order \<Rightarrow> time_value \<Rightarrow> time_value \<Rightarrow> User response \<Rightarrow> ChatMessage list response \<Rightarrow>
   World \<Rightarrow> AppState \<times> World" where
  "appStart order' currentTime effectTime me history w =
     (case order' of
        EffectsFirst \<Rightarrow>
          checkAuthStatus initialState currentTime me history
            (\<lambda>s. chatSessionEffect s effectTime s) (initialState, w)
      | ReopenFirst \<Rightarrow>
          let (s, w') = checkAuthStatus initialState currentTime me history id (initialState, w)
          in (chatSessionEffect s effectTime s, w'))"

subsection \<open>Sending a message\<close>

text \<open>The body of a chat answer: \<^verbatim>\<open>data.messages\<close>, \<^verbatim>\<open>data.message\<close> and
  \<^verbatim>\<open>data.message_ids\<close>, each of which may be absent.\<close>

record ChatData =
  data_messages :: "string list option"
  data_message :: "string option"
  data_message_ids :: "string list option"

text \<open>
  The delimiter that the stylist prompt (\<^verbatim>\<open>ALL_PROMPTS.md\<close>) tells the language model to
  put between the chunks of its reply.
\<close>

definition chunkDelimiter :: string where
  "chunkDelimiter = ''||CHUNK||''"

text \<open>
  Modelled from the spec: the chunking of the stylist's reply. The backend
  (\<^verbatim>\<open>backend/server.py\<close>), which is not among the source files, turns the text that the
  language model returns into the entries of \<^verbatim>\<open>data.messages\<close>. The spec says of it that
  the chat message chunking is string splitting on a delimiter produced by the language
  model. \<open>splitOn\<close> cuts a text at every occurrence of the delimiter, from left to right,
  and keeps empty chunks.
\<close>

fun splitOn :: "string \<Rightarrow> string \<Rightarrow> string list" where
  "splitOn d [] = [[]]"
| "splitOn d (c # cs) =
     (if d \<noteq> [] \<and> take (length d) (c # cs) = d then [] # splitOn d (drop (length d) (c # cs))
      else case splitOn d cs of
             chunk # rest \<Rightarrow> (c # chunk) # rest
           | [] \<Rightarrow> [[c]])"

text \<open>\<^verbatim>\<open>chatInput.trim()\<close> and \<^verbatim>\<open>msg.id.startsWith(prefix)\<close>.\<close>

definition trim :: "string \<Rightarrow> string" where
  "trim str = rev (dropWhile isSpace (rev (dropWhile isSpace str)))"

definition startsWith :: "string \<Rightarrow> string \<Rightarrow> bool" where
  "startsWith str prefix \<longleftrightarrow> take (length prefix) str = prefix"

text \<open>
  \<^verbatim>\<open>prev.filter(msg => keep(msg.id))\<close> where \<open>keep\<close> calls \<^verbatim>\<open>msg.id.startsWith\<close>: a
  message without an id makes the call raise a TypeError.
\<close>

fun filterById :: "(string \<Rightarrow> bool) \<Rightarrow> ChatMessage list \<Rightarrow> js_error + ChatMessage list" where
  "filterById keep [] = Inr []"
| "filterById keep (msg # rest) =
     (case msg_id msg of
        None \<Rightarrow> Inl TypeError
      | Some i \<Rightarrow>
          (case filterById keep rest of
             Inl e \<Rightarrow> Inl e
           | Inr kept \<Rightarrow> Inr (if keep i then msg # kept else kept)))"

definition notLoading :: "string \<Rightarrow> bool" where
  "notLoading i \<longleftrightarrow> \<not> startsWith i ''loading-''"

definition notTransient :: "string \<Rightarrow> bool" where
  "notTransient i \<longleftrightarrow> \<not> startsWith i ''typing-'' \<and> \<not> startsWith i ''loading-''"

text \<open>\<^verbatim>\<open>data.messages || [data.message]\<close>: an array, also an empty one, is truthy.\<close>

definition messageChunks :: "ChatData \<Rightarrow> string option list" where
  "messageChunks data =
     (case data_messages data of
        Some chunks \<Rightarrow> map Some chunks
      | None \<Rightarrow> [data_message data])"

text \<open>
  The message built in round \<open>i\<close> of the loop over the chunks; \<open>tick i\<close> is the clock in
  that round. An index beyond the end of \<^verbatim>\<open>data.message_ids\<close> reads \<^verbatim>\<open>undefined\<close>.
\<close>

definition aiMessage :: "User \<Rightarrow> ChatData \<Rightarrow> (nat \<Rightarrow> time_value) \<Rightarrow> nat \<Rightarrow> ChatMessage" where
  "aiMessage u data tick i =
     \<lparr>msg_id = (case data_message_ids data of
                  Some ids \<Rightarrow> if i < length ids then Some (ids ! i) else None
                | None \<Rightarrow> Some (toString (tick i + int i))),
      msg_user_id = uid u,
      message = messageChunks data ! i,
      is_user = False,
      timestamp = tick i,
      msg_image_base64 = None,
      isTyping = None\<rparr>"

definition appendChunks ::
  "User \<Rightarrow> ChatData \<Rightarrow> (nat \<Rightarrow> time_value) \<Rightarrow> ChatMessage list \<Rightarrow> ChatMessage list" where
  "appendChunks u data tick prev =
     foldl (\<lambda>msgs i. msgs @ [aiMessage u data tick i]) prev [0..<length (messageChunks data)]"

text \<open>
  The three messages that \<^verbatim>\<open>sendMessage\<close> builds itself: the user's message, the notice
  shown while an image is analysed, and the typing indicator. \<open>t0\<close> is the clock while
  they are built.
\<close>

definition userMessage :: "AppState \<Rightarrow> User \<Rightarrow> time_value \<Rightarrow> ChatMessage" where
  "userMessage c u t0 =
     \<lparr>msg_id = Some (toString t0), msg_user_id = uid u,
      message = Some (if chatInput c = [] then ''Please analyze this image'' else chatInput c),
      is_user = True, timestamp = t0,
      msg_image_base64 = (if truthy (chatImage c) then chatImage c else None),
      isTyping = None\<rparr>"

definition loadingMessage :: "User \<Rightarrow> time_value \<Rightarrow> ChatMessage" where
  "loadingMessage u t0 =
     \<lparr>msg_id = Some (''loading-'' @ toString t0), msg_user_id = uid u,
      message = Some ''Analyzing your image and creating style suggestions...'',
      is_user = False, timestamp = t0, msg_image_base64 = None, isTyping = None\<rparr>"

definition typingMessage :: "User \<Rightarrow> time_value \<Rightarrow> ChatMessage" where
  "typingMessage u t0 =
     \<lparr>msg_id = Some (''typing-'' @ toString t0), msg_user_id = uid u, message = Some ''...'',
      is_user = False, timestamp = t0, msg_image_base64 = None, isTyping = Some True\<rparr>"

text \<open>
  \<^verbatim>\<open>sendMessage\<close>. \<open>chat\<close> is the answer of the chat endpoint. An exception that escapes
  the function or one of its state updates is the result \<open>Inl\<close>. The alert that an attached
  image brings up does not stop the function, so the request to the chat endpoint is sent
  before the user can answer the alert. The answer \<open>choice\<close>, with \<open>post\<close> and \<open>reload\<close>
  for the handler of the accepting button, is taken after the function has dealt with the
  chat answer.
\<close>

definition sendMessage ::
  "AppState \<Rightarrow> time_value \<Rightarrow> (nat \<Rightarrow> time_value) \<Rightarrow> alert_choice \<Rightarrow> json response \<Rightarrow>
   WardrobeItem list response \<Rightarrow> ChatData response \<Rightarrow> AppState \<times> World \<Rightarrow>
   js_error + AppState \<times> World" where
  "sendMessage c t0 tick choice post reload chat = (\<lambda>(s, w).
     if trim (chatInput c) = [] \<and> \<not> truthy (chatImage c) then Inr (s, w)
     else
       case user c of
         None \<Rightarrow> Inl TypeError
       | Some u \<Rightarrow>
           let s1 = s\<lparr>chatMessages := chatMessages s @ [userMessage c u t0]\<rparr>;
               (s2, w2) =
                 (case chatImage c of
                    None \<Rightarrow> (s1, w)
                  | Some img \<Rightarrow>
                      if img = [] then (s1, w)
                      else
                        handleItemExtractionPermission c img (chatInput c)
                          (s1\<lparr>chatMessages := chatMessages s1 @ [loadingMessage u t0]\<rparr>, w));
               answer =
                 (case chatImage c of
                    None \<Rightarrow> id
                  | Some img \<Rightarrow>
                      if img = [] then id
                      else answerAlert choice (extractItems c img (chatInput c) post reload));
               s3 = s2\<lparr>chatInput := [], chatImage := None, loading := True\<rparr>
           in case filterById notLoading (chatMessages s3) of
                Inl e \<Rightarrow> Inl e
              | Inr shown \<Rightarrow>
                  let s4 = s3\<lparr>chatMessages := shown @ [typingMessage u t0]\<rparr>;
                      w4 = send (PostChat (token c)
                                   (if chatInput c = [] then ''Please analyze this image''
                                    else chatInput c)) w2
                  in case filterById notTransient (chatMessages s4) of
                       Inl e \<Rightarrow> Inl e
                     | Inr kept \<Rightarrow>
                         let s5 = s4\<lparr>chatMessages := kept\<rparr>
                         in case chat of
                              Rejected \<Rightarrow>
                                Inr (answer (s5\<lparr>loading := False\<rparr>, alert ''Network Error'' w4))
                            | Response status body \<Rightarrow>
                                (case body of
                                   None \<Rightarrow>
                                     Inr (answer (s5\<lparr>loading := False\<rparr>,
                                                  alert ''Network Error'' w4))
                                 | Some data \<Rightarrow>
                                     if ok status then
                                       Inr (answer
                                              (s5\<lparr>chatMessages := appendChunks u data tick kept,
                                                  loading := False\<rparr>, w4))
                                     else Inr (answer (s5\<lparr>loading := False\<rparr>,
                                                       alert ''Error'' w4))))"

section \<open>Reference descriptions\<close>

text \<open>
  The grouping that the display is meant to show, written from its description and not
  from the code: the group of a category is the list of the items of that category, in
  the order of the wardrobe, and a category without items has no group.
\<close>

definition groupsByCategory :: "WardrobeItem list \<Rightarrow> grouped_wardrobe" where
  "groupsByCategory wardrobe' c =
     (let xs = filter (\<lambda>item. categoryKey item = c) wardrobe'
      in if xs = [] then None else Some (Items xs))"

fun itemsOf :: "group_value option \<Rightarrow> WardrobeItem list" where
  "itemsOf (Some (Items xs)) = xs"
| "itemsOf _ = []"

definition onlyItems :: "grouped_wardrobe \<Rightarrow> bool" where
  "onlyItems g \<longleftrightarrow> (\<forall>k v. g k = Some v \<longrightarrow> (\<exists>xs. v = Items xs))"

text \<open>The chunks of a text put together again, with the delimiter between them.\<close>

fun joinWith :: "string \<Rightarrow> string list \<Rightarrow> string" where
  "joinWith d [] = []"
| "joinWith d [chunk] = chunk"
| "joinWith d (chunk # next # rest) = chunk @ d @ joinWith d (next # rest)"

text \<open>A text contains a delimiter when the delimiter starts at one of its positions.\<close>

definition containsAt :: "string \<Rightarrow> string \<Rightarrow> bool" where
  "containsAt d str \<longleftrightarrow> (\<exists>i \<le> length str. take (length d) (drop i str) = d)"

text \<open>The messages of a chat that are neither a typing indicator nor a loading notice.\<close>

definition keptMessages :: "ChatMessage list \<Rightarrow> ChatMessage list" where
  "keptMessages msgs =
     filter (\<lambda>m. case msg_id m of None \<Rightarrow> False | Some i \<Rightarrow> notTransient i) msgs"

text \<open>
  The item that a reference of a planned outfit stands for, as a list of at most one item:
  the first item of the wardrobe with that id.
\<close>

definition resolveRef :: "WardrobeItem list \<Rightarrow> string option \<Rightarrow> WardrobeItem list" where
  "resolveRef wardrobe' ref =
     (case ref of
        None \<Rightarrow> []
      | Some i \<Rightarrow>
          if i = [] then []
          else (case find (\<lambda>item. item_id item = i) wardrobe' of
                  None \<Rightarrow> []
                | Some x \<Rightarrow> [x]))"

text \<open>The outfit that a day card shows for a planned outfit.\<close>

definition shownOutfit :: "WardrobeItem list \<Rightarrow> PlannedOutfit \<Rightarrow> ShownOutfit" where
  "shownOutfit wardrobe' p =
     \<lparr>shown_date = date p, shown_occasion = occasion p, shown_event_name = event_name p,
      shown_items = resolveItems wardrobe' (items p)\<rparr>"


section \<open>Example inputs\<close>

definition tee :: WardrobeItem where
  "tee = \<lparr>item_id = ''w1'', user_id = ''u1'', image_base64 = ''img1'',
           exact_item_name = Some ''White cotton crew neck t-shirt'',
           category = Some ''T-shirts''\<rparr>"

definition jeans :: WardrobeItem where
  "jeans = \<lparr>item_id = ''w2'', user_id = ''u1'', image_base64 = ''img2'',
             exact_item_name = Some ''Blue jeans'', category = Some ''Jeans''\<rparr>"

definition scarf :: WardrobeItem where
  "scarf = \<lparr>item_id = ''w3'', user_id = ''u1'', image_base64 = ''img3'',
             exact_item_name = None, category = None\<rparr>"

definition polo :: WardrobeItem where
  "polo = \<lparr>item_id = ''w4'', user_id = ''u1'', image_base64 = ''img4'',
            exact_item_name = Some ''Navy polo'', category = Some ''T-shirts''\<rparr>"

definition boots :: WardrobeItem where
  "boots = \<lparr>item_id = ''w5'', user_id = ''u1'', image_base64 = ''img5'',
             exact_item_name = Some ''Brown boots'', category = Some ''Shoes''\<rparr>"

text \<open>An item whose category is the name of a member of \<^verbatim>\<open>Object.prototype\<close>.\<close>

definition oddItem :: WardrobeItem where
  "oddItem = \<lparr>item_id = ''w6'', user_id = ''u1'', image_base64 = ''img6'',
               exact_item_name = None, category = Some ''constructor''\<rparr>"

definition exampleWardrobe :: "WardrobeItem list" where
  "exampleWardrobe = [tee, jeans, scarf, polo]"

definition emptyWorld :: World where
  "emptyWorld = \<lparr>storage = Map.empty, storageFails = False, sent = [], alerts = []\<rparr>"

text \<open>The answers to an upload and to the validation of an outfit.\<close>

definition oneItemAdded :: json where
  "oneItemAdded = JObj [(''items_added'', JNum 1)]"

definition validated :: json where
  "validated = JObj [(''id'', JStr ''v1''), (''overall_score'', JNum 4)]"

text \<open>A signed-in user with a wardrobe and a list of generated outfits on display.\<close>

definition signedIn :: AppState where
  "signedIn = initialState\<lparr>user := Some \<lparr>uid = ''u1'', uname = ''Asha''\<rparr>,
                token := Some ''tok'', wardrobe := exampleWardrobe,
                generatedOutfits := [JStr ''outfit 1'', JStr ''outfit 2'']\<rparr>"


text \<open>The outfit builder with a top and shoes chosen for a Tuesday, and with only a
  layering piece and shoes chosen.\<close>

definition planning :: AppState where
  "planning = signedIn\<lparr>selectedOutfitDate := ''2024-01-09'',
                selectedOutfit := \<lparr>top_item = Some tee, bottom_item = None,
                                   layering_item = None, shoes_item = Some boots\<rparr>,
                outfitEvent := ''Dinner''\<rparr>"

definition shoesOnly :: AppState where
  "shoesOnly = signedIn\<lparr>selectedOutfitDate := ''2024-01-09'',
                 selectedOutfit := \<lparr>top_item = None, bottom_item = None,
                                    layering_item = Some scarf, shoes_item = Some boots\<rparr>\<rparr>"

text \<open>
  One o'clock at night on Sunday 2024-01-07 in a zone five and a half hours east of UTC:
  the instant 2024-01-06T19:30:00Z.
\<close>

definition nightInKolkata :: clock where
  "nightInKolkata = \<lparr>now = 1704569400000, timeZone = fixedZone 330\<rparr>"

text \<open>
  A zone with daylight saving: one hour east of UTC until 2024-03-31T01:00:00Z, two hours
  from then on. A local time that the change skips is read with the offset before it.
\<close>

definition berlin2024 :: zone where
  "berlin2024 =
     \<lparr>offsetAt = (\<lambda>t. if t < 1711846800000 then 60 else 120),
      offsetAtLocal = (\<lambda>t. if t < 1711854000000 then 60 else 120)\<rparr>"

text \<open>Two planned outfits for the same day, the second naming an item that is gone, and
  item references none of which is in the example wardrobe.\<close>

definition plannedTuesday :: PlannedOutfit where
  "plannedTuesday = \<lparr>date = ''2024-01-09'', occasion = ''Work'', event_name = None,
       items = \<lparr>top_id = Some ''w1'', bottom_id = Some ''w2'', layering_id = None,
                shoes_id = None\<rparr>\<rparr>"

definition plannedTuesdayAgain :: PlannedOutfit where
  "plannedTuesdayAgain = \<lparr>date = ''2024-01-09'', occasion = ''Casual'', event_name = Some ''Dinner'',
       items = \<lparr>top_id = Some ''w2'', bottom_id = Some ''sold'', layering_id = None,
                shoes_id = Some ''w1''\<rparr>\<rparr>"

definition staleIds :: OutfitItemIds where
  "staleIds = \<lparr>top_id = Some ''sold'', bottom_id = Some ''lost'', layering_id = None,
                shoes_id = Some ''sold''\<rparr>"

text \<open>A user, a message of an earlier chat, and the stored token of a signed-in user without
  and with the time of an earlier session, one minute before \<open>nightInKolkata\<close>.\<close>

definition asha :: User where
  "asha = \<lparr>uid = ''u1'', uname = ''Asha''\<rparr>"

definition oldMessage :: ChatMessage where
  "oldMessage = \<lparr>msg_id = Some ''m1'', msg_user_id = ''u1'', message = Some ''Hello'',
                  is_user = True, timestamp = 1704569340000, msg_image_base64 = None,
                  isTyping = None\<rparr>"

text \<open>
  The render in which a signed-in user opens the planner tab before the wardrobe has been
  loaded: the app starts on the chat tab, and the chat tab loads no wardrobe.
\<close>

definition openingPlanner :: AppState where
  "openingPlanner = initialState\<lparr>user := Some asha, token := Some ''tok'',
                      currentTab := ''planner''\<rparr>"

definition firstStart :: World where
  "firstStart = emptyWorld\<lparr>storage := [''token'' \<mapsto> ''tok'']\<rparr>"

definition quickRestart :: World where
  "quickRestart =
     emptyWorld\<lparr>storage := [''token'' \<mapsto> ''tok'', ''lastSessionTime'' \<mapsto> ''1704569340000'']\<rparr>"

text \<open>A question typed into the chat, and two answers: one in chunks with ids, one in the
  old format.\<close>

definition asking :: AppState where
  "asking = signedIn\<lparr>chatMessages := [oldMessage], chatInput := ''What should I wear?''\<rparr>"

definition exampleReply :: string where
  "exampleReply = ''Try the navy polo!||CHUNK||With blue jeans.''"

definition chunked :: ChatData where
  "chunked = \<lparr>data_messages = Some [''Try the navy polo!'', ''With blue jeans.''],
               data_message = Some ''Try the navy polo! With blue jeans.'',
               data_message_ids = Some [''a1'', ''a2'']\<rparr>"

definition unchunked :: ChatData where
  "unchunked = \<lparr>data_messages = None, data_message = Some ''Try the navy polo!'',
                 data_message_ids = None\<rparr>"

definition everySecond :: "nat \<Rightarrow> time_value" where
  "everySecond i = 1704569401000 + 1000 * int i"

section \<open>Properties of the wardrobe display\<close>

lemma proto_in_keys: "''__proto__'' \<in> set objectPrototypeKeys"
  by (simp add: objectPrototypeKeys_def)

lemma groupItem_ok:
  assumes "categoryKey item \<notin> set objectPrototypeKeys" and "onlyItems g"
  shows "groupItem g item =
         Inr (g(categoryKey item \<mapsto> Items (itemsOf (g (categoryKey item)) @ [item])))"
proof -
  have np: "categoryKey item \<noteq> ''__proto__''"
    using assms(1) proto_in_keys by metis
  show ?thesis
  proof (cases "g (categoryKey item)")
    case None
    then show ?thesis
      using assms(1) np by (simp add: groupItem_def getProp_def setProp_def Let_def)
  next
    case (Some v)
    then obtain xs where "v = Items xs"
      using assms(2) by (auto simp: onlyItems_def)
    with Some show ?thesis
      by (simp add: groupItem_def getProp_def Let_def)
  qed
qed

lemma onlyItems_upd: "onlyItems g \<Longrightarrow> onlyItems (g(k \<mapsto> Items xs))"
  by (simp add: onlyItems_def)

lemma forEachGroup_ok:
  assumes "\<forall>item\<in>set w. categoryKey item \<notin> set objectPrototypeKeys" and "onlyItems g"
  shows "forEachGroup g w =
         Inr (\<lambda>c. let new = filter (\<lambda>item. categoryKey item = c) w
                  in if new = [] then g c else Some (Items (itemsOf (g c) @ new)))"
  using assms
proof (induction w arbitrary: g)
  case Nil
  then show ?case by simp
next
  case (Cons x w)
  let ?g' = "g(categoryKey x \<mapsto> Items (itemsOf (g (categoryKey x)) @ [x]))"
  have step: "groupItem g x = Inr ?g'"
    using Cons.prems by (simp add: groupItem_ok)
  have "onlyItems ?g'"
    using Cons.prems(2) by (rule onlyItems_upd)
  then have "forEachGroup ?g' w =
         Inr (\<lambda>c. let new = filter (\<lambda>item. categoryKey item = c) w
                  in if new = [] then ?g' c else Some (Items (itemsOf (?g' c) @ new)))"
    using Cons.IH Cons.prems(1) by simp
  then show ?case
    using step by (auto simp: Let_def fun_eq_iff)
qed

text \<open>
  For a wardrobe none of whose categories is the name of a member of
  \<^verbatim>\<open>Object.prototype\<close>, \<^verbatim>\<open>getGroupedWardrobe\<close> returns the grouping by category: every
  item is in the group of its category (\<^verbatim>\<open>'Other'\<close> when it has none) and in no other,
  and each group keeps the order of the wardrobe.
\<close>

lemma getGroupedWardrobe_partition:
  assumes "\<forall>item\<in>set w. categoryKey item \<notin> set objectPrototypeKeys"
  shows "getGroupedWardrobe w = Inr (groupsByCategory w)"
proof -
  have "onlyItems Map.empty"
    by (simp add: onlyItems_def)
  from forEachGroup_ok [OF assms this]
  have "forEachGroup Map.empty w =
        Inr (\<lambda>c. if filter (\<lambda>item. categoryKey item = c) w = [] then None
                 else Some (Items (filter (\<lambda>item. categoryKey item = c) w)))"
    by (simp add: Let_def cong: if_cong)
  moreover have "groupsByCategory w =
        (\<lambda>c. if filter (\<lambda>item. categoryKey item = c) w = [] then None
                 else Some (Items (filter (\<lambda>item. categoryKey item = c) w)))"
    by (simp add: fun_eq_iff groupsByCategory_def Let_def)
  ultimately show ?thesis
    by (simp add: getGroupedWardrobe_def)
qed

text \<open>The first item whose category is such a name, in a wardrobe that has no group of
  that name yet, ends the grouping with a TypeError.\<close>

lemma groupItem_inherited:
  assumes "categoryKey item \<in> set objectPrototypeKeys" and "g (categoryKey item) = None"
  shows "groupItem g item = Inl TypeError"
  using assms by (simp add: groupItem_def getProp_def Let_def)

lemma groupItem_dom:
  "groupItem g item = Inr g' \<Longrightarrow> dom g' = insert (categoryKey item) (dom g)"
  by (auto simp: groupItem_def getProp_def setProp_def Let_def
           split: option.splits if_splits group_value.splits)

lemma forEachGroup_dom:
  "forEachGroup g w = Inr g' \<Longrightarrow> dom g' = dom g \<union> categoryKey ` set w"
proof (induction w arbitrary: g)
  case Nil
  then show ?case by simp
next
  case (Cons x w)
  then show ?case
    by (auto split: sum.splits dest!: groupItem_dom)
qed

lemma set_foldl_setAdd: "set (foldl setAdd acc xs) = set acc \<union> set xs"
  by (induction xs arbitrary: acc) (auto simp: setAdd_def)

lemma distinct_foldl_setAdd: "distinct acc \<Longrightarrow> distinct (foldl setAdd acc xs)"
  by (induction xs arbitrary: acc) (auto simp: setAdd_def)

lemma getFilteredWardrobe_all: "getFilteredWardrobe ''all'' w = getGroupedWardrobe w"
  by (simp add: getFilteredWardrobe_def)

text \<open>
  With the same proviso on the categories, and for a filter that is no such name either,
  the filtered view is the one group of the filter's category, or empty.
\<close>

lemma getFilteredWardrobe_category:
  assumes "\<forall>item\<in>set w. categoryKey item \<notin> set objectPrototypeKeys"
    and "c \<noteq> ''all''" and "c \<notin> set objectPrototypeKeys"
  shows "getFilteredWardrobe c w =
         Inr (case groupsByCategory w c of None \<Rightarrow> Map.empty | Some v \<Rightarrow> [c \<mapsto> v])"
proof -
  have "c \<noteq> ''__proto__''"
    using assms(3) proto_in_keys by metis
  then show ?thesis
    using assms
    by (simp add: getFilteredWardrobe_def getGroupedWardrobe_partition getProp_def setProp_def
             split: option.splits)
qed

text \<open>
  C3. The claim: for every wardrobe list, \<^verbatim>\<open>getGroupedWardrobe\<close> partitions the items by
  category. The code does so for the wardrobes of \<open>getGroupedWardrobe_partition\<close>; for
  the wardrobe that holds one item of category \<^verbatim>\<open>constructor\<close> it raises a TypeError
  instead of returning a grouping: \<^verbatim>\<open>grouped['constructor']\<close> is the inherited
  \<^verbatim>\<open>Object\<close> function, which is truthy and has no \<^verbatim>\<open>push\<close>.
\<close>

theorem C3_getGroupedWardrobe_inherited_category:
  "getGroupedWardrobe [oddItem] = Inl TypeError"
  by (simp add: getGroupedWardrobe_def groupItem_def getProp_def categoryKey_def
        objectPrototypeKeys_def oddItem_def Let_def)

text \<open>
  C6. The claim: with a filter other than \<^verbatim>\<open>'all'\<close>, \<^verbatim>\<open>getFilteredWardrobe\<close> returns
  the group of the filter's category if the grouping has one and the empty map otherwise.
  The code does so under the provisos of \<open>getFilteredWardrobe_category\<close>. For the filter
  \<^verbatim>\<open>constructor\<close> and the empty wardrobe it returns a map with the key
  \<^verbatim>\<open>constructor\<close>, bound to a member of the prototype, and for the filter \<^verbatim>\<open>Tops\<close>
  and a wardrobe with an item of category \<^verbatim>\<open>constructor\<close> it raises a TypeError.
\<close>

theorem C6_getFilteredWardrobe_inherited_key:
  "getFilteredWardrobe ''constructor'' [] = Inr [''constructor'' \<mapsto> PrototypeMember] \<and>
   getFilteredWardrobe ''Tops'' [oddItem] = Inl TypeError"
  by (simp add: getFilteredWardrobe_def getGroupedWardrobe_def groupItem_def getProp_def
        setProp_def categoryKey_def objectPrototypeKeys_def oddItem_def Let_def)

text \<open>
  For every wardrobe, the list that \<^verbatim>\<open>getAvailableCategories\<close> returns has as its
  elements exactly the categories of the items (\<^verbatim>\<open>'Other'\<close> for an item without one), has
  no duplicates and is sorted in ascending order; and whenever \<^verbatim>\<open>getGroupedWardrobe\<close>
  returns a grouping of the same wardrobe, the keys of that grouping are exactly the
  elements of the list.
\<close>

lemma getAvailableCategories_keys:
  "set (getAvailableCategories w) = categoryKey ` set w \<and>
   distinct (getAvailableCategories w) \<and> sorted (getAvailableCategories w) \<and>
   (\<forall>g. getGroupedWardrobe w = Inr g \<longrightarrow> dom g = set (getAvailableCategories w))"
  by (auto simp: getAvailableCategories_def set_foldl_setAdd distinct_foldl_setAdd
        getGroupedWardrobe_def dest!: forEachGroup_dom)

lemma getAvailableCategories_example:
  "getGroupedWardrobe exampleWardrobe = Inr (groupsByCategory exampleWardrobe) \<and>
   dom (groupsByCategory exampleWardrobe) = set (getAvailableCategories exampleWardrobe) \<and>
   getAvailableCategories exampleWardrobe = [''Jeans'', ''Other'', ''T-shirts'']"
proof -
  have g: "getGroupedWardrobe exampleWardrobe = Inr (groupsByCategory exampleWardrobe)"
    by (rule getGroupedWardrobe_partition)
      (simp add: exampleWardrobe_def tee_def jeans_def scarf_def polo_def categoryKey_def
         objectPrototypeKeys_def)
  have d: "dom (groupsByCategory exampleWardrobe) = set (getAvailableCategories exampleWardrobe)"
    using getAvailableCategories_keys [of exampleWardrobe] g by blast
  have "getAvailableCategories exampleWardrobe = [''Jeans'', ''Other'', ''T-shirts'']"
    by (simp add: getAvailableCategories_def setAdd_def exampleWardrobe_def tee_def jeans_def
          scarf_def polo_def categoryKey_def)
  with g d show ?thesis
    by simp
qed

text \<open>
  C7. The claim: for every wardrobe list, the list of \<^verbatim>\<open>getAvailableCategories\<close> has no
  duplicates, is sorted, and equals, as a set, the set of keys of the map that
  \<^verbatim>\<open>getGroupedWardrobe\<close> returns for the same wardrobe. The list is as the claim says
  (\<open>getAvailableCategories_keys\<close>), and it is the set of keys whenever a map is returned.
  For the wardrobe of a t-shirt and an item of category \<^verbatim>\<open>constructor\<close> the list is
  \<^verbatim>\<open>['T-shirts', 'constructor']\<close>, and \<^verbatim>\<open>getGroupedWardrobe\<close> returns no map to compare
  it with: it raises a TypeError, as for C3.
\<close>

theorem C7_categories_without_grouping:
  "getAvailableCategories [tee, oddItem] = [''T-shirts'', ''constructor''] \<and>
   getGroupedWardrobe [tee, oddItem] = Inl TypeError"
  by (simp add: getAvailableCategories_def setAdd_def getGroupedWardrobe_def groupItem_def
        getProp_def setProp_def categoryKey_def objectPrototypeKeys_def tee_def oddItem_def
        Let_def)

section \<open>The cache of generated outfits\<close>

lemma loadWardrobe_generatedOutfits:
  "generatedOutfits (fst (loadWardrobe c resp (s, w))) = generatedOutfits s"
  by (simp add: loadWardrobe_def Let_def split: option.splits response.splits)

text \<open>A successful upload from the wardrobe tab and a successful deletion empty the list.\<close>

lemma addWardrobeItems_clears:
  assumes "granted = Some True" and "picked = Asset (Some base64)" and "base64 \<noteq> []"
    and "post = Response status (Some result)" and "ok status"
  shows "generatedOutfits (fst (addWardrobeItems c granted picked post reload (s, w))) = []"
  using assms
  by (simp add: addWardrobeItems_def truthy_def Let_def split: prod.splits)

lemma deleteWardrobeItem_clears:
  assumes "token c = Some tok" and "tok \<noteq> []" and "resp = Response status body" and "ok status"
  shows "generatedOutfits (fst (deleteWardrobeItem c itemId resp reload (s, w))) = []"
  using assms
  by (simp add: deleteWardrobeItem_def Let_def)

text \<open>The two extraction flows never change the list, whatever the answer to their POST.\<close>

lemma answerAlert_cases:
  "answerAlert choice onPress x = x \<or> answerAlert choice onPress x = onPress x"
  by (cases choice) (simp_all add: answerAlert_def)

lemma handleItemExtractionPermission_state:
  "fst (handleItemExtractionPermission c img context (s, w)) = s"
  by (simp add: handleItemExtractionPermission_def)

lemma handleOutfitExtractionPermission_state:
  "fst (handleOutfitExtractionPermission c img (s, w)) = s"
  by (simp add: handleOutfitExtractionPermission_def)

lemma extractItems_generatedOutfits:
  "generatedOutfits (fst (extractItems c img context post reload (s, w))) = generatedOutfits s"
proof -
  have "generatedOutfits (fst (loadWardrobe c reload (s\<lparr>loading := True\<rparr>, w'))) = generatedOutfits s"
    for w'
    by (simp add: loadWardrobe_generatedOutfits)
  then show ?thesis
    by (simp add: extractItems_def Let_def split: response.splits option.splits prod.splits)
      (metis fst_conv)
qed

lemma extractOutfitItems_generatedOutfits:
  "generatedOutfits (fst (extractOutfitItems c img post reload (s, w))) = generatedOutfits s"
proof -
  have "generatedOutfits (fst (loadWardrobe c reload (s\<lparr>loading := True\<rparr>, w'))) = generatedOutfits s"
    for w'
    by (simp add: loadWardrobe_generatedOutfits)
  then show ?thesis
    by (simp add: extractOutfitItems_def Let_def split: response.splits option.splits prod.splits)
      (metis fst_conv)
qed

lemma validateOutfit_generatedOutfits:
  "generatedOutfits (fst (validateOutfit c picked validation choice post reload (s, w)))
   = generatedOutfits s"
proof -
  have "generatedOutfits (fst (answerAlert choice (extractOutfitItems c img post reload) (s', w')))
        = generatedOutfits s'" for img s' w'
    using answerAlert_cases [of choice "extractOutfitItems c img post reload" "(s', w')"]
    by (auto simp: extractOutfitItems_generatedOutfits)
  then show ?thesis
    by (simp add: validateOutfit_def handleOutfitExtractionPermission_def Let_def
             split: picker_result.splits response.splits option.splits)
qed

text \<open>
  C1. The claim: after every successful POST of a wardrobe item, also in the chat-image and
  the outfit-validation extraction flows, \<^verbatim>\<open>generatedOutfits\<close> is the empty list. The
  upload of the wardrobe tab and the deletion empty it, as \<open>addWardrobeItems_clears\<close> and
  \<open>deleteWardrobeItem_clears\<close> say. The two extraction flows post to the same endpoint and
  reload the wardrobe, but leave the list as it is: here a signed-in user with two
  generated outfits accepts the extraction, once for an image of the chat and once after
  the validation of an outfit, the POST is answered with status 200, and both outfits are
  still there.
\<close>

theorem C1_extraction_keeps_generatedOutfits:
  "generatedOutfits
     (fst (answerAlert Accepted
             (extractItems signedIn ''img'' ''what goes with this?''
                (Response 200 (Some oneItemAdded)) (Response 200 (Some (exampleWardrobe @ [boots]))))
             (handleItemExtractionPermission signedIn ''img'' ''what goes with this?''
                (signedIn, emptyWorld))))
   = [JStr ''outfit 1'', JStr ''outfit 2''] \<and>
   sent
     (snd (answerAlert Accepted
             (extractItems signedIn ''img'' ''what goes with this?''
                (Response 200 (Some oneItemAdded)) (Response 200 (Some (exampleWardrobe @ [boots]))))
             (handleItemExtractionPermission signedIn ''img'' ''what goes with this?''
                (signedIn, emptyWorld))))
   = [PostWardrobe (Some ''tok'') [''chat-extracted'', ''what goes with this?''],
      GetWardrobe ''tok''] \<and>
   generatedOutfits
     (fst (validateOutfit signedIn (Asset (Some ''img'')) (Response 200 (Some validated)) Accepted
             (Response 200 (Some oneItemAdded)) (Response 200 (Some (exampleWardrobe @ [boots])))
             (signedIn, emptyWorld)))
   = [JStr ''outfit 1'', JStr ''outfit 2''] \<and>
   sent
     (snd (validateOutfit signedIn (Asset (Some ''img'')) (Response 200 (Some validated)) Accepted
             (Response 200 (Some oneItemAdded)) (Response 200 (Some (exampleWardrobe @ [boots])))
             (signedIn, emptyWorld)))
   = [PostValidateOutfit (Some ''tok''),
      PostWardrobe (Some ''tok'') [''validated-outfit'', ''outfit-extract''],
      GetWardrobe ''tok'']"
  by (simp add: answerAlert_def handleItemExtractionPermission_def extractItems_def
        handleOutfitExtractionPermission_def extractOutfitItems_def validateOutfit_def
        loadWardrobe_def signedIn_def emptyWorld_def initialState_def oneItemAdded_def
        validated_def send_def alert_def ok_def Let_def)

section \<open>Properties of the date functions\<close>

text \<open>The year of a day is the last year that starts on or before it, as the ECMAScript
  specification defines \<^verbatim>\<open>YearFromTime\<close>.\<close>

lemma DayFromYear_scaled:
  "400 * DayFromYear y =
     146097 * (y - 1970) + 193 - 100 * ((y - 1969) mod 4) + 4 * ((y - 1901) mod 100)
       - (y - 1601) mod 400"
proof -
  define a ra b rb c rc where "a = (y - 1969) div 4" and "ra = (y - 1969) mod 4"
    and "b = (y - 1901) div 100" and "rb = (y - 1901) mod 100"
    and "c = (y - 1601) div 400" and "rc = (y - 1601) mod 400"
  have e: "y - 1969 = 4 * a + ra" "y - 1901 = 100 * b + rb" "y - 1601 = 400 * c + rc"
    by (simp_all add: a_def ra_def b_def rb_def c_def rc_def)
  have f: "DayFromYear y = 365 * (y - 1970) + a - b + c"
    by (simp add: DayFromYear_def a_def b_def c_def)
  have "400 * a = 100 * (y - 1969) - 100 * ra"
    using e(1) by simp
  moreover have "400 * b = 4 * (y - 1901) - 4 * rb"
    using e(2) by simp
  moreover have "400 * c = (y - 1601) - rc"
    using e(3) by simp
  ultimately have "400 * DayFromYear y = 146097 * (y - 1970) + 193 - 100 * ra + 4 * rb - rc"
    using f by simp
  then show ?thesis
    by (simp add: ra_def rb_def rc_def)
qed

lemma DayFromYear_upper: "400 * DayFromYear y \<le> 146097 * (y - 1970) + 589"
proof -
  have "0 \<le> (y - 1969) mod 4" "(y - 1901) mod 100 < 100" "0 \<le> (y - 1601) mod 400"
    by simp_all
  then show ?thesis
    unfolding DayFromYear_scaled by simp
qed

lemma DayFromYear_lower: "146097 * (y - 1970) - 506 \<le> 400 * DayFromYear y"
proof -
  have "(y - 1969) mod 4 < 4" "0 \<le> (y - 1901) mod 100" "(y - 1601) mod 400 < 400"
    by simp_all
  then show ?thesis
    unfolding DayFromYear_scaled by simp
qed

lemma YearFromDay_correct:
  "DayFromYear (YearFromDay d) \<le> d \<and> d < DayFromYear (YearFromDay d + 1)"
proof -
  define q where "q = (d * 400) div 146097"
  define r where "r = (d * 400) mod 146097"
  have "d * 400 = 146097 * q + r"
    by (simp add: q_def r_def)
  moreover have "0 \<le> r" "r < 146097"
    by (simp_all add: r_def)
  ultimately have q1: "146097 * q \<le> 400 * d" and q2: "400 * d < 146097 * q + 146097"
    by linarith+
  have "400 * DayFromYear (1970 + q - 1) \<le> 146097 * q - 145508"
    using DayFromYear_upper [of "1970 + q - 1"] by simp
  then have A: "DayFromYear (1970 + q - 1) \<le> d"
    using q1 by linarith
  have "146097 * q + 291688 \<le> 400 * DayFromYear (1970 + q + 1 + 1)"
    using DayFromYear_lower [of "1970 + q + 1 + 1"] by simp
  then have B: "d < DayFromYear (1970 + q + 1 + 1)"
    using q2 by linarith
  show ?thesis
    using A B by (auto simp: YearFromDay_def Let_def q_def [symmetric])
qed


lemma Day_shift: "Day (t + k * msPerDay) = Day t + k"
  by (simp add: Day_def msPerDay_def)

lemma LocalTime_shift: "LocalTime (fixedZone m) (t + x) = LocalTime (fixedZone m) t + x"
  by (simp add: LocalTime_def fixedZone_def)

lemma isoDate_Day: "Day a = Day b \<Longrightarrow> isoDate a = isoDate b"
  by (simp add: isoDate_def YearFromTime_def MonthFromTime_def DateFromTime_def DayWithinYear_def)

lemma MonthFromTime_lt: "MonthFromTime t < 12"
proof -
  have "length (filter P [1..<12]) \<le> length [1..<12]" for P :: "nat \<Rightarrow> bool"
    by (rule length_filter_le)
  then have "length (filter P [1..<12]) < 12" for P :: "nat \<Rightarrow> bool"
    using le_less_trans [of "length (filter P [1..<12])" 11 12] by simp
  then show ?thesis
    unfolding MonthFromTime_def Let_def .
qed

lemma MakeDay_own_month:
  "MakeDay (YearFromTime t) (int (MonthFromTime t)) (DateFromTime t + k) = Day t + k"
proof -
  have m: "int (MonthFromTime t) div 12 = 0" "nat (int (MonthFromTime t) mod 12) = MonthFromTime t"
    using MonthFromTime_lt [of t] by simp_all
  show ?thesis
    unfolding MakeDay_def Let_def m
    by (simp add: DateFromTime_def DayWithinYear_def)
qed

text \<open>In a zone with one offset, \<^verbatim>\<open>setDate\<close> moves a date by whole days.\<close>

lemma setDate_shift:
  "setDate (fixedZone m) t (getDate (fixedZone m) t + k) = t + k * msPerDay"
proof -
  let ?lt = "LocalTime (fixedZone m) t"
  have "MakeDate (Day ?lt + k) (TimeWithinDay ?lt) = ?lt + k * msPerDay"
    by (simp add: MakeDate_def Day_def TimeWithinDay_def algebra_simps)
  then show ?thesis
    by (simp add: setDate_def getDate_def Let_def MakeDay_own_month UTC_def LocalTime_def
          fixedZone_def)
qed

lemma getWeekDates_eq:
  assumes "timeZone clk = fixedZone m"
  shows "getWeekDates clk w =
     map (\<lambda>i. now clk + (w * 7 - getDay (fixedZone m) (now clk) + int i) * msPerDay) [0..<7]"
proof -
  let ?tz = "fixedZone m" and ?t = "now clk"
  let ?k = "w * 7 - getDay ?tz ?t"
  have a: "getDate ?tz ?t - getDay ?tz ?t + w * 7 = getDate ?tz ?t + ?k"
    by simp
  have s: "setDate ?tz ?t (getDate ?tz ?t - getDay ?tz ?t + w * 7) = ?t + ?k * msPerDay"
    unfolding a by (rule setDate_shift)
  show ?thesis
    unfolding getWeekDates_def Let_def assms s setDate_shift
    by (simp add: algebra_simps del: upt_Suc)
qed

lemma length_getWeekDates: "length (getWeekDates clk w) = 7"
  by (simp add: getWeekDates_def Let_def del: upt_Suc)

lemma getWeekDates_local_days:
  assumes "timeZone clk = fixedZone m"
  shows "map (\<lambda>d. Day (LocalTime (fixedZone m) d)) (getWeekDates clk w) =
   map (\<lambda>i. Day (LocalTime (fixedZone m) (now clk)) + w * 7 - getDay (fixedZone m) (now clk) + int i)
     [0..<7]"
  unfolding getWeekDates_eq [OF assms]
  by (simp add: LocalTime_shift Day_shift del: upt_Suc)

lemma getWeekDates_first_sunday:
  assumes "timeZone clk = fixedZone m"
  shows "getDay (fixedZone m) (getWeekDates clk w ! 0) = 0"
proof -
  have "getWeekDates clk w ! 0 = now clk + (w * 7 - getDay (fixedZone m) (now clk)) * msPerDay"
    unfolding getWeekDates_eq [OF assms] by (simp add: upt_rec)
  then have "getDay (fixedZone m) (getWeekDates clk w ! 0) =
     (Day (LocalTime (fixedZone m) (now clk)) +
      (w * 7 - (Day (LocalTime (fixedZone m) (now clk)) + 4) mod 7) + 4) mod 7"
    by (simp add: getDay_def WeekDay_def LocalTime_shift Day_shift)
  also have "\<dots> = 0"
    by presburger
  finally show ?thesis .
qed

text \<open>
  In the local time of a zone with one offset the seven dates are consecutive days, the
  first of them a Sunday: \<open>getWeekDates_local_days\<close> and \<open>getWeekDates_first_sunday\<close>.
  Each date keeps the time of day of \<open>now\<close>. The strings of \<^verbatim>\<open>formatDate\<close> are the dates
  of these instants in UTC; they are the local dates when the UTC day of \<open>now\<close> is its
  local day.
\<close>

lemma getWeekDates_format_local:
  assumes "timeZone clk = fixedZone m"
    and "Day (LocalTime (fixedZone m) (now clk)) = Day (now clk)"
  shows "map formatDate (getWeekDates clk w) = map (localDate (fixedZone m)) (getWeekDates clk w)"
proof -
  have "isoDate (now clk + k * msPerDay) = isoDate (LocalTime (fixedZone m) (now clk + k * msPerDay))"
    for k
    by (rule isoDate_Day) (simp add: LocalTime_shift Day_shift assms(2))
  then show ?thesis
    unfolding getWeekDates_eq [OF assms(1)]
    by (simp add: formatDate_def localDate_def del: upt_Suc)
qed

text \<open>
  A week with a change to daylight saving: in the zone of \<open>berlin2024\<close> the clocks go from
  02:00 to 03:00 on Sunday 2024-03-31. Seen at noon of the Wednesday before, the next week
  starts on that Sunday, and its seven dates are consecutive local days at noon.
\<close>

lemma getWeekDates_daylight_saving:
  "map (localDate berlin2024) (getWeekDates \<lparr>now = 1711537200000, timeZone = berlin2024\<rparr> 1) =
     [''2024-03-31'', ''2024-04-01'', ''2024-04-02'', ''2024-04-03'', ''2024-04-04'',
      ''2024-04-05'', ''2024-04-06''] \<and>
   map (\<lambda>d. TimeWithinDay (LocalTime berlin2024 d))
     (getWeekDates \<lparr>now = 1711537200000, timeZone = berlin2024\<rparr> 1) =
     [43200000, 43200000, 43200000, 43200000, 43200000, 43200000, 43200000] \<and>
   map (getDay berlin2024) (getWeekDates \<lparr>now = 1711537200000, timeZone = berlin2024\<rparr> 1) =
     [0, 1, 2, 3, 4, 5, 6]"
  by code_simp

lemma nightInKolkata_week:
  "getWeekDates nightInKolkata 0 =
      [1704569400000, 1704655800000, 1704742200000, 1704828600000, 1704915000000,
       1705001400000, 1705087800000]"
  by code_simp

lemma nightInKolkata_range:
  "formatDate 1704569400000 = ''2024-01-06''" "formatDate 1705087800000 = ''2024-01-12''"
  by code_simp+

text \<open>
  C2. The claim: the planner is queried from the Sunday to the Saturday of the week that
  \<^verbatim>\<open>getWeekDates\<close> returns. \<^verbatim>\<open>getWeekDates\<close> works in local time, \<^verbatim>\<open>formatDate\<close>
  in UTC. At one o'clock at night on Sunday 2024-01-07, five and a half hours east of UTC,
  the week on the day cards runs from Sunday 2024-01-07 to Saturday 2024-01-13, and the
  query asks for 2024-01-06 (a Saturday) to 2024-01-12.
\<close>

theorem C2_query_range_is_utc_dated:
  "sent (snd (loadPlannedOutfits signedIn nightInKolkata (Response 200 (Some []))
               (signedIn, emptyWorld)))
     = [GetPlannerOutfits ''tok'' ''2024-01-06'' ''2024-01-12''] \<and>
   map (localDate (fixedZone 330)) (getWeekDates nightInKolkata 0) =
    [''2024-01-07'', ''2024-01-08'', ''2024-01-09'', ''2024-01-10'', ''2024-01-11'',
     ''2024-01-12'', ''2024-01-13''] \<and>
   map (getDay (fixedZone 330)) (getWeekDates nightInKolkata 0) = [0, 1, 2, 3, 4, 5, 6]"
proof -
  have w: "getWeekDates nightInKolkata 0 =
      [1704569400000, 1704655800000, 1704742200000, 1704828600000, 1704915000000,
       1705001400000, 1705087800000]"
    by code_simp
  have f: "formatDate 1704569400000 = ''2024-01-06''" "formatDate 1705087800000 = ''2024-01-12''"
    by code_simp+
  have s: "selectedWeek signedIn = 0" "token signedIn = Some ''tok''"
    by (simp_all add: signedIn_def initialState_def)
  have 1: "sent (snd (loadPlannedOutfits signedIn nightInKolkata (Response 200 (Some []))
               (signedIn, emptyWorld)))
     = [GetPlannerOutfits ''tok'' ''2024-01-06'' ''2024-01-12'']"
    by (simp add: loadPlannedOutfits_def s w f Let_def send_def emptyWorld_def ok_def)
  have 2: "map (localDate (fixedZone 330)) (getWeekDates nightInKolkata 0) =
    [''2024-01-07'', ''2024-01-08'', ''2024-01-09'', ''2024-01-10'', ''2024-01-11'',
     ''2024-01-12'', ''2024-01-13'']"
    by code_simp
  have 3: "map (getDay (fixedZone 330)) (getWeekDates nightInKolkata 0) = [0, 1, 2, 3, 4, 5, 6]"
    by code_simp
  from 1 2 3 show ?thesis
    by simp
qed

section \<open>Properties of the planner\<close>

lemma pushResolved_eq: "pushResolved w ref acc = acc @ resolveRef w ref"
proof -
  have "(\<lambda>item. Some (item_id item) = Some i) = (\<lambda>item. item_id item = i)" for i
    by simp
  then show ?thesis
    by (simp add: pushResolved_def resolveRef_def truthy_def split: option.splits)
qed

lemma resolveItems_eq:
  "resolveItems w ids =
     concat (map (resolveRef w) [top_id ids, bottom_id ids, layering_id ids, shoes_id ids])"
  by (simp add: resolveItems_def pushResolved_eq)

lemma find_SomeD: "find P xs = Some x \<Longrightarrow> P x \<and> x \<in> set xs"
  by (induction xs) (auto split: if_splits)

lemma resolveRef_set:
  assumes "x \<in> set (resolveRef w ref)"
  shows "x \<in> set w \<and> ref = Some (item_id x)"
proof (cases ref)
  case None
  with assms show ?thesis
    by (simp add: resolveRef_def)
next
  case (Some i)
  with assms have "find (\<lambda>item. item_id item = i) w = Some x"
    by (simp add: resolveRef_def split: if_splits option.splits)
  from find_SomeD [OF this] Some show ?thesis
    by simp
qed

lemma resolveRef_stale:
  assumes "\<forall>x\<in>set w. Some (item_id x) \<noteq> ref"
  shows "resolveRef w ref = []"
proof (cases "resolveRef w ref")
  case Nil
  then show ?thesis .
next
  case (Cons x xs)
  then have "x \<in> set (resolveRef w ref)"
    by simp
  from resolveRef_set [OF this] assms show ?thesis
    by blast
qed

lemma loadPlannedOutfits_sent:
  "sent (snd (loadPlannedOutfits c clk resp (s, w))) = sent w \<or>
   (\<exists>tok a b. sent (snd (loadPlannedOutfits c clk resp (s, w))) = sent w @ [GetPlannerOutfits tok a b])"
  by (simp add: loadPlannedOutfits_def Let_def send_def split: option.splits response.splits)


lemma addPlanned_apply:
  "d \<noteq> ''__proto__'' \<Longrightarrow>
   addPlanned w m p d = (if date p = d then Some (shownOutfit w p) else m d)"
  by (auto simp: addPlanned_def setProp_def shownOutfit_def)

lemma foldl_addPlanned:
  assumes "d \<noteq> ''__proto__''"
  shows "foldl (addPlanned w) m ps d =
         (case find (\<lambda>p. date p = d) (rev ps) of
            None \<Rightarrow> m d
          | Some p \<Rightarrow> Some (shownOutfit w p))"
proof (induction ps rule: rev_induct)
  case Nil
  then show ?case by simp
next
  case (snoc p ps)
  then show ?case
    using assms by (simp add: addPlanned_apply)
qed

lemma loadPlannedOutfits_weeklyOutfits:
  assumes "token c = Some tok" and "tok \<noteq> []" and "ok status" and "d \<noteq> ''__proto__''"
  shows "weeklyOutfits (fst (loadPlannedOutfits c clk (Response status (Some ps)) (s, w))) d =
         (case find (\<lambda>p. date p = d) (rev ps) of
            None \<Rightarrow> None
          | Some p \<Rightarrow> Some (shownOutfit (wardrobe c) p))"
  using assms by (simp add: loadPlannedOutfits_def Let_def foldl_addPlanned)

lemma idOrNull_cases:
  "idOrNull x = None \<or> (\<exists>item. x = Some item \<and> idOrNull x = Some (item_id item))"
  by (simp add: idOrNull_def split: option.splits)

lemma savePlannedOutfit_sent:
  assumes "token c = Some tok" and "tok \<noteq> []"
    and "top_item (selectedOutfit c) \<noteq> None \<or> bottom_item (selectedOutfit c) \<noteq> None"
  shows "\<exists>rest. sent (snd (savePlannedOutfit c clk resp reload (s, w))) =
           sent w @
           PostPlannerOutfit tok
             \<lparr>date = selectedOutfitDate c,
              occasion = (if outfitOccasion c = [] then ''Casual'' else outfitOccasion c),
              event_name = (if outfitEvent c = [] then None else Some (outfitEvent c)),
              items = \<lparr>top_id = idOrNull (top_item (selectedOutfit c)),
                       bottom_id = idOrNull (bottom_item (selectedOutfit c)),
                       layering_id = idOrNull (layering_item (selectedOutfit c)),
                       shoes_id = idOrNull (shoes_item (selectedOutfit c))\<rparr>\<rparr> # rest \<and>
           (\<forall>r\<in>set rest. \<exists>t a b. r = GetPlannerOutfits t a b)"
proof -
  let ?po = "\<lparr>date = selectedOutfitDate c,
              occasion = (if outfitOccasion c = [] then ''Casual'' else outfitOccasion c),
              event_name = (if outfitEvent c = [] then None else Some (outfitEvent c)),
              items = \<lparr>top_id = idOrNull (top_item (selectedOutfit c)),
                       bottom_id = idOrNull (bottom_item (selectedOutfit c)),
                       layering_id = idOrNull (layering_item (selectedOutfit c)),
                       shoes_id = idOrNull (shoes_item (selectedOutfit c))\<rparr>\<rparr>"
  have l: "sent (snd (loadPlannedOutfits c clk reload (s', w'))) = sent w' \<or>
     (\<exists>a b. sent (snd (loadPlannedOutfits c clk reload (s', w'))) = sent w' @ [GetPlannerOutfits tok a b])"
    for s' w'
    using assms(1,2)
    by (simp add: loadPlannedOutfits_def Let_def send_def split: response.splits option.splits)
  show ?thesis
  proof (cases "\<exists>status data. resp = Response status (Some data) \<and> ok status")
    case False
    then have "sent (snd (savePlannedOutfit c clk resp reload (s, w))) = sent w @ [PostPlannerOutfit tok ?po]"
      using assms
      by (auto simp: savePlannedOutfit_def Let_def send_def alert_def
               split: response.splits option.splits)
    then show ?thesis
      by simp
  next
    case True
    then obtain status data where r: "resp = Response status (Some data)" "ok status"
      by blast
    let ?s2 = "s\<lparr>loading := True, selectedOutfit := emptyOutfit, outfitEvent := [],
                  outfitOccasion := [], showManualOutfitBuilder := False\<rparr>"
    let ?w2 = "alert ''Success!'' (send (PostPlannerOutfit tok ?po) w)"
    have e: "sent (snd (savePlannedOutfit c clk resp reload (s, w))) =
             sent (snd (loadPlannedOutfits c clk reload (?s2, ?w2)))"
      using assms r
      by (auto simp: savePlannedOutfit_def Let_def split: prod.splits)
    have w2: "sent ?w2 = sent w @ [PostPlannerOutfit tok ?po]"
      by (simp add: alert_def send_def)
    from l [of ?s2 ?w2] show ?thesis
      unfolding e w2 by auto
  qed
qed

text \<open>
  C5. The planner maps a date to at most one outfit. After a successful load, the entry of
  \<^verbatim>\<open>weeklyOutfits\<close> for a date is the last of the fetched outfits with that date (a later
  one overwrites an earlier one), and there is no entry for a date without an outfit; this
  holds for every key but \<^verbatim>\<open>__proto__\<close>, which is no date. A save with a top or a bottom
  chosen sends one POST whose body has the chosen date, the occasion or \<^verbatim>\<open>'Casual'\<close>
  when none is set, the event name or \<^verbatim>\<open>null\<close>, and in each of the four slots
  \<^verbatim>\<open>null\<close> or the id of the item chosen for it; the only other request is the reload of
  the planner.
\<close>

theorem C5_planner_mapping:
  assumes "token c = Some tok" and "tok \<noteq> []" and "ok status" and "d \<noteq> ''__proto__''"
    and "token c' = Some tok'" and "tok' \<noteq> []"
    and "top_item (selectedOutfit c') \<noteq> None \<or> bottom_item (selectedOutfit c') \<noteq> None"
  shows "weeklyOutfits (fst (loadPlannedOutfits c clk (Response status (Some ps)) (s, w))) d =
           (case find (\<lambda>p. date p = d) (rev ps) of
              None \<Rightarrow> None
            | Some p \<Rightarrow> Some (shownOutfit (wardrobe c) p)) \<and>
         (\<exists>rest.
            sent (snd (savePlannedOutfit c' clk' resp reload (s', w'))) =
              sent w' @
              PostPlannerOutfit tok'
                \<lparr>date = selectedOutfitDate c',
                 occasion = (if outfitOccasion c' = [] then ''Casual'' else outfitOccasion c'),
                 event_name = (if outfitEvent c' = [] then None else Some (outfitEvent c')),
                 items = \<lparr>top_id = idOrNull (top_item (selectedOutfit c')),
                          bottom_id = idOrNull (bottom_item (selectedOutfit c')),
                          layering_id = idOrNull (layering_item (selectedOutfit c')),
                          shoes_id = idOrNull (shoes_item (selectedOutfit c'))\<rparr>\<rparr> # rest \<and>
            (\<forall>r\<in>set rest. \<exists>t a b. r = GetPlannerOutfits t a b)) \<and>
         (\<forall>x. idOrNull x = None \<or> (\<exists>item. x = Some item \<and> idOrNull x = Some (item_id item)))"
proof (intro conjI)
  show "weeklyOutfits (fst (loadPlannedOutfits c clk (Response status (Some ps)) (s, w))) d =
           (case find (\<lambda>p. date p = d) (rev ps) of
              None \<Rightarrow> None
            | Some p \<Rightarrow> Some (shownOutfit (wardrobe c) p))"
    using assms(1-4) by (rule loadPlannedOutfits_weeklyOutfits)
  show "\<exists>rest.
            sent (snd (savePlannedOutfit c' clk' resp reload (s', w'))) =
              sent w' @
              PostPlannerOutfit tok'
                \<lparr>date = selectedOutfitDate c',
                 occasion = (if outfitOccasion c' = [] then ''Casual'' else outfitOccasion c'),
                 event_name = (if outfitEvent c' = [] then None else Some (outfitEvent c')),
                 items = \<lparr>top_id = idOrNull (top_item (selectedOutfit c')),
                          bottom_id = idOrNull (bottom_item (selectedOutfit c')),
                          layering_id = idOrNull (layering_item (selectedOutfit c')),
                          shoes_id = idOrNull (shoes_item (selectedOutfit c'))\<rparr>\<rparr> # rest \<and>
            (\<forall>r\<in>set rest. \<exists>t a b. r = GetPlannerOutfits t a b)"
    using assms(5-7) by (rule savePlannedOutfit_sent)
  show "\<forall>x. idOrNull x = None \<or> (\<exists>item. x = Some item \<and> idOrNull x = Some (item_id item))"
    using idOrNull_cases by blast
qed

theorem C5_planner_mapping_witness:
  "map_option shown_items
     (weeklyOutfits
        (fst (loadPlannedOutfits signedIn nightInKolkata
                (Response 200 (Some [plannedTuesday, plannedTuesdayAgain])) (signedIn, emptyWorld)))
        ''2024-01-09'') = Some [jeans, tee] \<and>
   (\<exists>rest.
      sent (snd (savePlannedOutfit planning nightInKolkata (Response 200 (Some JNull)) Rejected
                   (planning, emptyWorld))) =
        PostPlannerOutfit ''tok''
          \<lparr>date = ''2024-01-09'', occasion = ''Casual'', event_name = Some ''Dinner'',
           items = \<lparr>top_id = Some ''w1'', bottom_id = None, layering_id = None,
                    shoes_id = Some ''w5''\<rparr>\<rparr> # rest)"
proof -
  have t: "token signedIn = Some ''tok''" "''tok'' \<noteq> []" "ok 200" "''2024-01-09'' \<noteq> ''__proto__''"
    "token planning = Some ''tok''" "''tok'' \<noteq> []"
    "top_item (selectedOutfit planning) \<noteq> None \<or> bottom_item (selectedOutfit planning) \<noteq> None"
    by (simp_all add: signedIn_def planning_def initialState_def ok_def)
  note C = C5_planner_mapping [OF t, of nightInKolkata "[plannedTuesday, plannedTuesdayAgain]"
      signedIn emptyWorld nightInKolkata "Response 200 (Some JNull)" Rejected planning emptyWorld]
  have f: "find (\<lambda>p. date p = ''2024-01-09'') (rev [plannedTuesday, plannedTuesdayAgain]) =
           Some plannedTuesdayAgain"
    by (simp add: plannedTuesdayAgain_def)
  have r: "resolveItems exampleWardrobe (items plannedTuesdayAgain) = [jeans, tee]"
    by (simp add: plannedTuesdayAgain_def resolveItems_def pushResolved_def truthy_def
          exampleWardrobe_def tee_def jeans_def scarf_def polo_def)
  have w: "wardrobe signedIn = exampleWardrobe"
    by (simp add: signedIn_def initialState_def)
  have 1: "map_option shown_items
     (weeklyOutfits
        (fst (loadPlannedOutfits signedIn nightInKolkata
                (Response 200 (Some [plannedTuesday, plannedTuesdayAgain])) (signedIn, emptyWorld)))
        ''2024-01-09'') = Some [jeans, tee]"
    unfolding conjunct1 [OF C] f by (simp add: shownOutfit_def w r)
  have p: "selectedOutfitDate planning = ''2024-01-09''" "outfitOccasion planning = []"
    "outfitEvent planning = ''Dinner''"
    "idOrNull (top_item (selectedOutfit planning)) = Some ''w1''"
    "idOrNull (bottom_item (selectedOutfit planning)) = None"
    "idOrNull (layering_item (selectedOutfit planning)) = None"
    "idOrNull (shoes_item (selectedOutfit planning)) = Some ''w5''"
    by (simp_all add: planning_def signedIn_def initialState_def idOrNull_def tee_def boots_def)
  have e: "sent emptyWorld = []"
    by (simp add: emptyWorld_def)
  from conjunct1 [OF conjunct2 [OF C]] have 2: "\<exists>rest.
      sent (snd (savePlannedOutfit planning nightInKolkata (Response 200 (Some JNull)) Rejected
                   (planning, emptyWorld))) =
        PostPlannerOutfit ''tok''
          \<lparr>date = ''2024-01-09'', occasion = ''Casual'', event_name = Some ''Dinner'',
           items = \<lparr>top_id = Some ''w1'', bottom_id = None, layering_id = None,
                    shoes_id = Some ''w5''\<rparr>\<rparr> # rest"
    unfolding p e by auto
  from 1 2 show ?thesis
    by (rule conjI)
qed

text \<open>
  C8. When neither a top nor a bottom is chosen, \<^verbatim>\<open>savePlannedOutfit\<close> returns at once:
  it sends no request, shows no alert and changes no state, whatever is chosen as layering
  or as shoes.
\<close>

theorem C8_savePlannedOutfit_needs_top_or_bottom:
  assumes "top_item (selectedOutfit c) = None" and "bottom_item (selectedOutfit c) = None"
  shows "savePlannedOutfit c clk resp reload (s, w) = (s, w)"
  using assms by (simp add: savePlannedOutfit_def split: option.splits)

theorem C8_savePlannedOutfit_needs_top_or_bottom_witness:
  "layering_item (selectedOutfit shoesOnly) = Some scarf \<and>
   shoes_item (selectedOutfit shoesOnly) = Some boots \<and>
   token shoesOnly = Some ''tok'' \<and>
   savePlannedOutfit shoesOnly nightInKolkata (Response 200 (Some JNull)) Rejected
     (shoesOnly, emptyWorld) = (shoesOnly, emptyWorld)"
proof -
  have "top_item (selectedOutfit shoesOnly) = None" "bottom_item (selectedOutfit shoesOnly) = None"
    by (simp_all add: shoesOnly_def)
  from C8_savePlannedOutfit_needs_top_or_bottom [OF this]
  have "savePlannedOutfit shoesOnly nightInKolkata (Response 200 (Some JNull)) Rejected
     (shoesOnly, emptyWorld) = (shoesOnly, emptyWorld)" .
  then show ?thesis
    by (simp add: shoesOnly_def signedIn_def initialState_def)
qed

text \<open>
  The items that \<^verbatim>\<open>loadPlannedOutfits\<close> stores for a planned outfit are the four
  references top, bottom, layering, shoes, in this order, each replaced by the first item
  with that id in the wardrobe of the render that the function belongs to, and left out
  when there is none.
\<close>

lemma resolveItems_references:
  "resolveItems wd ids =
     concat (map (resolveRef wd) [top_id ids, bottom_id ids, layering_id ids, shoes_id ids]) \<and>
   (\<forall>x\<in>set (resolveItems wd ids).
      x \<in> set wd \<and>
      Some (item_id x) \<in> {top_id ids, bottom_id ids, layering_id ids, shoes_id ids}) \<and>
   ((\<forall>x\<in>set wd. Some (item_id x) \<notin> {top_id ids, bottom_id ids, layering_id ids, shoes_id ids})
      \<longrightarrow> resolveItems wd ids = [])"
proof (intro conjI)
  show "resolveItems wd ids =
     concat (map (resolveRef wd) [top_id ids, bottom_id ids, layering_id ids, shoes_id ids])"
    by (rule resolveItems_eq)
  show "\<forall>x\<in>set (resolveItems wd ids).
      x \<in> set wd \<and>
      Some (item_id x) \<in> {top_id ids, bottom_id ids, layering_id ids, shoes_id ids}"
    unfolding resolveItems_eq by (auto dest: resolveRef_set)
  show "(\<forall>x\<in>set wd. Some (item_id x) \<notin> {top_id ids, bottom_id ids, layering_id ids, shoes_id ids})
      \<longrightarrow> resolveItems wd ids = []"
    unfolding resolveItems_eq by (auto intro!: resolveRef_stale)
qed

lemma loadPlannedOutfits_shown_items:
  assumes "token c = Some tok" and "tok \<noteq> []" and "ok status" and "date p \<noteq> ''__proto__''"
  shows "map_option shown_items
        (weeklyOutfits (fst (loadPlannedOutfits c clk (Response status (Some (ps @ [p]))) (s, w)))
           (date p)) = Some (resolveItems (wardrobe c) (items p))"
  using assms by (simp add: loadPlannedOutfits_weeklyOutfits shownOutfit_def)

lemma resolveItems_examples:
  "resolveItems exampleWardrobe (items plannedTuesdayAgain) = [jeans, tee] \<and>
   resolveItems exampleWardrobe staleIds = []"
  by (simp add: plannedTuesdayAgain_def staleIds_def resolveItems_def pushResolved_def
        truthy_def exampleWardrobe_def tee_def jeans_def scarf_def polo_def)

lemma plannerEffect_wardrobe:
  assumes "user c \<noteq> None" and "token c = Some tok" and "tok \<noteq> []"
    and "currentTab c = ''planner''" and "ok status"
  shows "wardrobe (fst (plannerEffect c clk (Response status (Some items')) planned (s, w))) = items'"
  using assms
  by (simp add: plannerEffect_def loadWardrobe_def loadPlannedOutfits_def truthy_def Let_def
           split: response.splits option.splits)

lemma plannerEffect_shown_items:
  assumes "user c \<noteq> None" and "token c = Some tok" and "tok \<noteq> []"
    and "currentTab c = ''planner''" and "ok status" and "date p \<noteq> ''__proto__''"
  shows "map_option shown_items
        (weeklyOutfits
           (fst (plannerEffect c clk reload (Response status (Some (ps @ [p]))) (s, w)))
           (date p)) = Some (resolveItems (wardrobe c) (items p))"
proof -
  obtain s1 w1 where l: "loadWardrobe c reload (s, w) = (s1, w1)"
    by (cases "loadWardrobe c reload (s, w)")
  show ?thesis
    using assms loadPlannedOutfits_shown_items [OF assms(2,3,5,6), of clk ps s1 w1]
    by (simp add: plannerEffect_def truthy_def l)
qed

text \<open>
  C10. The claim: each reference of a fetched planned outfit is resolved against the
  currently loaded wardrobe and dropped when no wardrobe item has that id.
  \<^verbatim>\<open>loadPlannedOutfits\<close> resolves the references as \<open>resolveItems_references\<close> says, but
  against the wardrobe of the render it belongs to (\<open>plannerEffect_shown_items\<close>), while
  the wardrobe that is loaded is the one of the current state (\<open>plannerEffect_wardrobe\<close>).
  When a signed-in user opens the planner tab for the first time, the effect asks for the
  wardrobe and for the planned outfits, the wardrobe arrives with a t-shirt \<^verbatim>\<open>w1\<close> and
  jeans \<^verbatim>\<open>w2\<close>, the outfit planned for Tuesday refers to both, and the day card shows no
  item: the references are resolved against the empty wardrobe of the render.
\<close>

theorem C10_references_resolved_against_render:
  "wardrobe
     (fst (plannerEffect openingPlanner nightInKolkata (Response 200 (Some exampleWardrobe))
             (Response 200 (Some [plannedTuesday])) (openingPlanner, emptyWorld)))
   = exampleWardrobe \<and>
   map_option shown_items
     (weeklyOutfits
        (fst (plannerEffect openingPlanner nightInKolkata (Response 200 (Some exampleWardrobe))
                (Response 200 (Some [plannedTuesday])) (openingPlanner, emptyWorld)))
        ''2024-01-09'')
   = Some [] \<and>
   resolveItems exampleWardrobe (items plannedTuesday) = [tee, jeans] \<and>
   sent
     (snd (plannerEffect openingPlanner nightInKolkata (Response 200 (Some exampleWardrobe))
             (Response 200 (Some [plannedTuesday])) (openingPlanner, emptyWorld)))
   = [GetWardrobe ''tok'', GetPlannerOutfits ''tok'' ''2024-01-06'' ''2024-01-12'']"
proof -
  have o: "user openingPlanner \<noteq> None" "token openingPlanner = Some ''tok''" "''tok'' \<noteq> []"
    "currentTab openingPlanner = ''planner''" "ok 200" "wardrobe openingPlanner = []"
    by (simp_all add: openingPlanner_def initialState_def ok_def)
  have d: "date plannedTuesday = ''2024-01-09''" "date plannedTuesday \<noteq> ''__proto__''"
    by (simp_all add: plannedTuesday_def)
  have 1: "wardrobe
     (fst (plannerEffect openingPlanner nightInKolkata (Response 200 (Some exampleWardrobe))
             (Response 200 (Some [plannedTuesday])) (openingPlanner, emptyWorld)))
   = exampleWardrobe"
    using o(1-5) by (rule plannerEffect_wardrobe)
  have r0: "resolveItems (wardrobe openingPlanner) (items plannedTuesday) = []"
    by (simp add: o(6) resolveItems_def pushResolved_def)
  have e: "[] @ [plannedTuesday] = [plannedTuesday]"
    by simp
  from plannerEffect_shown_items [OF o(1-5) d(2), of nightInKolkata
      "Response 200 (Some exampleWardrobe)" "[]" openingPlanner emptyWorld]
  have 2: "map_option shown_items
     (weeklyOutfits
        (fst (plannerEffect openingPlanner nightInKolkata (Response 200 (Some exampleWardrobe))
                (Response 200 (Some [plannedTuesday])) (openingPlanner, emptyWorld)))
        ''2024-01-09'')
   = Some []"
    unfolding e r0 d(1) .
  have 3: "resolveItems exampleWardrobe (items plannedTuesday) = [tee, jeans]"
    by (simp add: plannedTuesday_def resolveItems_def pushResolved_def truthy_def
          exampleWardrobe_def tee_def jeans_def scarf_def polo_def)
  have "selectedWeek openingPlanner = 0"
    by (simp add: openingPlanner_def initialState_def)
  then have 4: "sent
     (snd (plannerEffect openingPlanner nightInKolkata (Response 200 (Some exampleWardrobe))
             (Response 200 (Some [plannedTuesday])) (openingPlanner, emptyWorld)))
   = [GetWardrobe ''tok'', GetPlannerOutfits ''tok'' ''2024-01-06'' ''2024-01-12'']"
    using o(1-5)
    by (simp add: plannerEffect_def loadWardrobe_def loadPlannedOutfits_def truthy_def Let_def
          send_def emptyWorld_def nightInKolkata_week nightInKolkata_range)
  from 1 2 3 4 show ?thesis
    by (intro conjI)
qed


section \<open>Properties of numbers as strings\<close>

lemma digit_cases:
  assumes "0 \<le> d" and "d < (10::int)"
  shows "d = 0 \<or> d = 1 \<or> d = 2 \<or> d = 3 \<or> d = 4 \<or> d = 5 \<or> d = 6 \<or> d = 7 \<or> d = 8 \<or> d = 9"
  using assms by presburger

lemma digitValue_digitChar:
  assumes "0 \<le> d" and "d < 10"
  shows "digitValue 10 (digitChar d) = Some d"
  using digit_cases [OF assms]
  by (elim disjE) (simp_all add: digitValue_def digitChar_def hexDigits_def)

lemma digitChar_plain:
  assumes "0 \<le> d" and "d < 10"
  shows "digitChar d \<in> set ''0123456789''"
  using digit_cases [OF assms]
  by (elim disjE) (simp_all add: digitChar_def)

lemma plain_cases:
  assumes "c \<in> set ''0123456789''"
  shows "c = CHR ''0'' \<or> c = CHR ''1'' \<or> c = CHR ''2'' \<or> c = CHR ''3'' \<or> c = CHR ''4'' \<or>
         c = CHR ''5'' \<or> c = CHR ''6'' \<or> c = CHR ''7'' \<or> c = CHR ''8'' \<or> c = CHR ''9''"
  using assms by simp

lemma digitValue_plain:
  assumes "c \<in> set ''0123456789''"
  shows "digitValue 10 c \<noteq> None"
  using plain_cases [OF assms]
  by (elim disjE) (simp_all add: digitValue_def hexDigits_def)

lemma plain_not_space:
  assumes "c \<in> set ''0123456789''"
  shows "\<not> isSpace c \<and> c \<noteq> CHR ''-'' \<and> c \<noteq> CHR ''+'' \<and> c \<noteq> CHR ''x'' \<and> c \<noteq> CHR ''X''"
  using plain_cases [OF assms]
  by (elim disjE) (simp_all add: isSpace_def)

lemma digitsOf_digits: "digitsOf n \<noteq> [] \<and> set (digitsOf n) \<subseteq> set ''0123456789''"
proof (induction n rule: digitsOf.induct)
  case (1 n)
  show ?case
  proof (cases "n < 10")
    case True
    then have "digitChar (int n) \<in> set ''0123456789''"
      by (intro digitChar_plain) simp_all
    moreover have "digitsOf n = [digitChar (int n)]"
      using True by (subst digitsOf.simps) simp
    ultimately show ?thesis
      by simp
  next
    case False
    have "digitChar (int (n mod 10)) \<in> set ''0123456789''"
      by (intro digitChar_plain) simp_all
    moreover have "digitsOf n = digitsOf (n div 10) @ [digitChar (int (n mod 10))]"
      using False by (subst digitsOf.simps) simp
    ultimately show ?thesis
      using 1 [OF False] by simp
  qed
qed

lemma parseDigits_append:
  assumes "\<forall>c\<in>set xs. digitValue r c \<noteq> None"
  shows "parseDigits r acc (xs @ ys) = parseDigits r (parseDigits r acc xs) ys"
  using assms by (induction xs arbitrary: acc) (auto split: option.splits)

lemma parseDigits_digitsOf: "parseDigits 10 None (digitsOf n) = Some (int n)"
proof (induction n rule: digitsOf.induct)
  case (1 n)
  show ?case
  proof (cases "n < 10")
    case True
    then have "digitValue 10 (digitChar (int n)) = Some (int n)"
      by (intro digitValue_digitChar) simp_all
    with True show ?thesis
      by (subst digitsOf.simps) simp
  next
    case False
    have v: "digitValue 10 (digitChar (int (n mod 10))) = Some (int (n mod 10))"
      by (intro digitValue_digitChar) simp_all
    have d: "\<forall>c\<in>set (digitsOf (n div 10)). digitValue 10 c \<noteq> None"
      using digitsOf_digits [of "n div 10"] digitValue_plain by blast
    have "parseDigits 10 None (digitsOf (n div 10) @ [digitChar (int (n mod 10))]) =
          parseDigits 10 (Some (int (n div 10))) [digitChar (int (n mod 10))]"
      using parseDigits_append [OF d] 1 False by simp
    also have "\<dots> = Some (int (n div 10) * 10 + int (n mod 10))"
      by (simp add: v)
    also have "\<dots> = Some (int n)"
    proof -
      have "int (n div 10) * 10 + int (n mod 10) = int (n div 10 * 10 + n mod 10)"
        by (simp only: of_nat_add of_nat_mult of_nat_numeral)
      also have "\<dots> = int n"
        by (simp only: div_mult_mod_eq)
      finally show ?thesis
        by (simp only:)
    qed
    finally show ?thesis
      using False by (subst digitsOf.simps) simp
  qed
qed

lemma digits_not_hex:
  assumes "set ds \<subseteq> set ''0123456789''"
  shows "take 2 ds \<noteq> ''0x'' \<and> take 2 ds \<noteq> ''0X''"
proof (cases ds)
  case Nil
  then show ?thesis by simp
next
  case (Cons a as)
  show ?thesis
  proof (cases as)
    case Nil
    with Cons show ?thesis by simp
  next
    case (Cons b bs)
    with \<open>ds = a # as\<close> assms have "b \<in> set ''0123456789''"
      by auto
    from plain_not_space [OF this] Cons \<open>ds = a # as\<close> show ?thesis
      by simp
  qed
qed

lemma parseInt_plain:
  assumes "s = a # as" and "\<not> isSpace a" and "a \<noteq> CHR ''-''" and "a \<noteq> CHR ''+''"
    and "take 2 s \<noteq> ''0x''" and "take 2 s \<noteq> ''0X''"
  shows "parseInt s = parseDigits 10 None s"
proof -
  have d: "dropWhile isSpace s = s"
    using assms(1,2) by simp
  have n1: "(case s of c # _ \<Rightarrow> c = CHR ''-'' | [] \<Rightarrow> False) = False"
    using assms(1,3) by simp
  have n2: "(case s of c # r \<Rightarrow> if c = CHR ''-'' \<or> c = CHR ''+'' then r else s | [] \<Rightarrow> []) = s"
    using assms(1,3,4) by simp
  show ?thesis
    unfolding parseInt_def Let_def d n1 n2 using assms(5,6) by (simp add: option.map_ident)
qed

lemma parseInt_minus:
  assumes "take 2 s \<noteq> ''0x''" and "take 2 s \<noteq> ''0X''"
  shows "parseInt (CHR ''-'' # s) = map_option uminus (parseDigits 10 None s)"
proof -
  have d: "dropWhile isSpace (CHR ''-'' # s) = CHR ''-'' # s"
    by (simp add: isSpace_def)
  have n1: "(case CHR ''-'' # s of c # _ \<Rightarrow> c = CHR ''-'' | [] \<Rightarrow> False) = True"
    by simp
  have n2: "(case CHR ''-'' # s of c # r \<Rightarrow> if c = CHR ''-'' \<or> c = CHR ''+'' then r else CHR ''-'' # s
             | [] \<Rightarrow> []) = s"
    by simp
  show ?thesis
    unfolding parseInt_def Let_def d n1 n2 using assms by simp
qed

lemma parseInt_digitsOf: "parseInt (digitsOf n) = Some (int n)"
proof -
  obtain a as where ds: "digitsOf n = a # as"
    using digitsOf_digits [of n] by (cases "digitsOf n") auto
  then have "a \<in> set ''0123456789''"
    using digitsOf_digits [of n] by auto
  from plain_not_space [OF this] have a: "\<not> isSpace a" "a \<noteq> CHR ''-''" "a \<noteq> CHR ''+''"
    by simp_all
  have h: "take 2 (digitsOf n) \<noteq> ''0x''" "take 2 (digitsOf n) \<noteq> ''0X''"
    using digits_not_hex [of "digitsOf n"] digitsOf_digits [of n] by simp_all
  from parseInt_plain [OF ds a h] show ?thesis
    by (simp add: parseDigits_digitsOf)
qed

lemma parseInt_minus_digitsOf: "parseInt (CHR ''-'' # digitsOf n) = Some (- int n)"
proof -
  have h: "take 2 (digitsOf n) \<noteq> ''0x''" "take 2 (digitsOf n) \<noteq> ''0X''"
    using digits_not_hex [of "digitsOf n"] digitsOf_digits [of n] by simp_all
  from parseInt_minus [OF h] show ?thesis
    by (simp add: parseDigits_digitsOf)
qed

text \<open>\<^verbatim>\<open>parseInt\<close> reads back what \<^verbatim>\<open>toString\<close> wrote.\<close>

lemma parseInt_toString: "parseInt (toString t) = Some t"
  by (simp add: toString_def parseInt_digitsOf parseInt_minus_digitsOf)

lemma toString_nonempty: "toString t \<noteq> []"
  using digitsOf_digits by (simp add: toString_def)

section \<open>Properties of the session rule\<close>

text \<open>For a time written by an earlier start, the session is new exactly when more than
  300000 ms have passed since; without a stored time it is always new.\<close>

lemma isNewSession_stamp:
  "isNewSession (Some (toString t0)) t \<longleftrightarrow> t - t0 > 300000"
  by (simp add: isNewSession_def parseInt_toString toString_nonempty sessionThreshold_def)

lemma isNewSession_absent: "isNewSession None t"
  by (simp add: isNewSession_def)

lemma loadChatHistory_no_token:
  "\<not> truthy (token c) \<Longrightarrow> loadChatHistory c h (s, w) = (s, w)"
  by (auto simp: loadChatHistory_def truthy_def split: option.splits)

lemma handleAppReopenBehavior_new_session:
  assumes "\<not> storageFails w" and "isNewSession (storage w ''lastSessionTime'') t"
  shows "handleAppReopenBehavior c t h (s, w) =
         (s\<lparr>chatMessages := [], chatInput := [], chatImage := None\<rparr>,
          (case token c of
             None \<Rightarrow> w
           | Some tok \<Rightarrow> if tok = [] then w else send (DeleteChatClear tok) w)
          \<lparr>storage := (storage w)(''lastSessionTime'' \<mapsto> toString t)\<rparr>)"
  using assms
  by (simp add: handleAppReopenBehavior_def Let_def send_def split: option.splits)

lemma handleAppReopenBehavior_same_session:
  assumes "\<not> storageFails w" and "\<not> isNewSession (storage w ''lastSessionTime'') t"
  shows "handleAppReopenBehavior c t h (s, w) =
         (fst (loadChatHistory c h (s, w)),
          (snd (loadChatHistory c h (s, w)))
          \<lparr>storage := (storage (snd (loadChatHistory c h (s, w))))
                        (''lastSessionTime'' \<mapsto> toString t)\<rparr>)"
  using assms
  by (simp add: handleAppReopenBehavior_def Let_def split: prod.splits)

lemma handleAppReopenBehavior_no_token:
  "\<not> truthy (token c) \<Longrightarrow> sent (snd (handleAppReopenBehavior c t h (s, w))) = sent w"
  by (auto simp: handleAppReopenBehavior_def loadChatHistory_no_token Let_def truthy_def
           split: option.splits)

lemma checkAuthStatus_sent:
  "sent (snd (checkAuthStatus initialState t me h rendered (initialState, w))) = sent w \<or>
   (\<exists>tok. sent (snd (checkAuthStatus initialState t me h rendered (initialState, w))) =
            sent w @ [GetAuthMe tok])"
proof -
  have n: "\<not> truthy (token initialState)"
    by (simp add: initialState_def truthy_def)
  have "sent (snd (handleAppReopenBehavior initialState t h (s', w'))) = sent w'" for s' w'
    using n by (rule handleAppReopenBehavior_no_token)
  then show ?thesis
    by (simp add: checkAuthStatus_def Let_def send_def
             split: option.splits response.splits)
qed

lemma appStart_sent:
  "sent (snd (appStart sequence t t' me h w)) = sent w \<or>
   (\<exists>tok. sent (snd (appStart sequence t t' me h w)) = sent w @ [GetAuthMe tok])"
proof (cases sequence)
  case EffectsFirst
  then show ?thesis
    using checkAuthStatus_sent [of t me h "\<lambda>s. chatSessionEffect s t' s" w]
    by (simp add: appStart_def)
next
  case ReopenFirst
  then show ?thesis
    using checkAuthStatus_sent [of t me h id w]
    by (simp add: appStart_def case_prod_beta)
qed

text \<open>
  What \<^verbatim>\<open>handleAppReopenBehavior\<close> does as a closure of a render that has the token: a
  first start asks the backend to clear the chat, a restart within five minutes loads the
  history.
\<close>

lemma handleAppReopenBehavior_with_token:
  "sent (snd (handleAppReopenBehavior signedIn 1704569400000 (Response 200 (Some [oldMessage]))
                (signedIn, firstStart))) = [DeleteChatClear ''tok''] \<and>
   sent (snd (handleAppReopenBehavior signedIn 1704569400000 (Response 200 (Some [oldMessage]))
                (signedIn, quickRestart))) = [GetChatHistory ''tok''] \<and>
   chatMessages (fst (handleAppReopenBehavior signedIn 1704569400000 (Response 200 (Some [oldMessage]))
                (signedIn, quickRestart))) = [oldMessage]"
proof -
  have p: "parseInt ''1704569340000'' = Some 1704569340000"
    by (simp add: parseInt_def isSpace_def digitValue_def hexDigits_def)
  have n: "\<not> isNewSession (Some ''1704569340000'') 1704569400000"
    by (simp add: isNewSession_def p sessionThreshold_def)
  have n0: "isNewSession None 1704569400000"
    by (simp add: isNewSession_def)
  show ?thesis
    by (simp add: handleAppReopenBehavior_def
          loadChatHistory_def signedIn_def initialState_def firstStart_def quickRestart_def emptyWorld_def
          send_def ok_def n n0 Let_def)
qed

text \<open>
  C9. The claim: at an authenticated app start the chat is cleared, in the client and by a
  request to the backend, when no session time is stored or more than five minutes have
  passed, and the stored history is loaded otherwise. \<^verbatim>\<open>handleAppReopenBehavior\<close> does
  this when the render it belongs to has the token (\<open>handleAppReopenBehavior_new_session\<close>,
  \<open>handleAppReopenBehavior_same_session\<close>, \<open>isNewSession_stamp\<close>). Its only call is in
  \<^verbatim>\<open>checkAuthStatus\<close>, which the mount effect of the first render runs: there \<open>token\<close>
  is still \<^verbatim>\<open>null\<close>, also after \<^verbatim>\<open>setToken\<close>. So at the start of the app, with a
  stored token that the backend accepts, the only request is the one for the user
  (\<open>appStart_sent\<close>): on a first start the backend is not asked to clear the chat, and on a
  restart one minute after the last session the history is not loaded, so that the chat
  holds the greeting and not the earlier message. The stored session time is updated in
  both cases. All this holds in whichever order the effects of the render with the user
  and the rest of \<^verbatim>\<open>handleAppReopenBehavior\<close> come.
\<close>

theorem C9_app_start_reads_stale_token:
  "sent (snd (appStart sequence 1704569400000 1704569400050 (Response 200 (Some asha))
                (Response 200 (Some [oldMessage])) firstStart)) = [GetAuthMe ''tok''] \<and>
   sent (snd (appStart sequence 1704569400000 1704569400050 (Response 200 (Some asha))
                (Response 200 (Some [oldMessage])) quickRestart)) = [GetAuthMe ''tok''] \<and>
   chatMessages
     (fst (appStart sequence 1704569400000 1704569400050 (Response 200 (Some asha))
             (Response 200 (Some [oldMessage])) quickRestart))
     = [greetingMessage asha 1704569400050] \<and>
   storage
     (snd (appStart sequence 1704569400000 1704569400050 (Response 200 (Some asha))
             (Response 200 (Some [oldMessage])) quickRestart)) ''lastSessionTime''
     = Some ''1704569400000''"
proof -
  have p: "parseInt ''1704569340000'' = Some 1704569340000"
    by (simp add: parseInt_def isSpace_def digitValue_def hexDigits_def)
  have t: "toString 1704569400000 = ''1704569400000''"
    by (simp add: toString_def digitsOf.simps digitChar_def)
  have n: "\<not> isNewSession (Some ''1704569340000'') 1704569400000"
    by (simp add: isNewSession_def p sessionThreshold_def)
  have n0: "isNewSession None 1704569400000"
    by (simp add: isNewSession_def)
  show ?thesis
    by (cases sequence)
      (simp_all add: appStart_def checkAuthStatus_def handleAppReopenBehavior_def
          loadChatHistory_def chatSessionEffect_def initializeChatSession_def
          initialState_def firstStart_def quickRestart_def emptyWorld_def
          send_def ok_def n n0 t Let_def)
qed

section \<open>Properties of the chat\<close>

lemma toString_first:
  "\<exists>a as. toString t = a # as \<and> a \<noteq> CHR ''t'' \<and> a \<noteq> CHR ''l''"
proof -
  obtain a as where ds: "digitsOf (nat \<bar>t\<bar>) = a # as"
    using digitsOf_digits [of "nat \<bar>t\<bar>"] by (cases "digitsOf (nat \<bar>t\<bar>)") auto
  then have "a \<in> set ''0123456789''"
    using digitsOf_digits [of "nat \<bar>t\<bar>"] by auto
  from plain_cases [OF this] have "a \<noteq> CHR ''t'' \<and> a \<noteq> CHR ''l''"
    by (elim disjE) simp_all
  with ds show ?thesis
    by (cases "t < 0") (simp_all add: toString_def abs_if)
qed

lemma toString_notTransient: "notTransient (toString t) \<and> notLoading (toString t)"
proof -
  obtain a as where "toString t = a # as" "a \<noteq> CHR ''t''" "a \<noteq> CHR ''l''"
    using toString_first by blast
  then show ?thesis
    by (simp add: notTransient_def notLoading_def startsWith_def)
qed

lemma prefixed_ids:
  "\<not> notLoading (''loading-'' @ x)" "\<not> notTransient (''typing-'' @ x)"
  "notLoading (''typing-'' @ x)"
  by (simp_all add: notLoading_def notTransient_def startsWith_def)

lemma notTransient_notLoading: "notTransient i \<Longrightarrow> notLoading i"
  by (simp add: notTransient_def notLoading_def)

lemma filterById_defined:
  assumes "\<forall>m\<in>set xs. msg_id m \<noteq> None"
  shows "filterById keep xs =
         Inr (filter (\<lambda>m. case msg_id m of None \<Rightarrow> False | Some i \<Rightarrow> keep i) xs)"
  using assms by (induction xs) auto

lemma filterById_undefined:
  assumes "m \<in> set xs" and "msg_id m = None"
  shows "filterById keep xs = Inl TypeError"
  using assms by (induction xs) (auto split: option.splits sum.splits)

lemma appendChunks_eq:
  "appendChunks u data tick prev =
     prev @ map (aiMessage u data tick) [0..<length (messageChunks data)]"
proof -
  have "foldl (\<lambda>msgs i. msgs @ [f i]) prev xs = prev @ map f xs"
    for f :: "nat \<Rightarrow> ChatMessage" and xs
    by (induction xs arbitrary: prev) simp_all
  then show ?thesis
    by (simp add: appendChunks_def)
qed

lemma loadWardrobe_chatMessages:
  "chatMessages (fst (loadWardrobe c resp (s, w))) = chatMessages s"
  by (simp add: loadWardrobe_def Let_def split: option.splits response.splits)

lemma extractItems_chatMessages:
  "chatMessages (fst (extractItems c img context post reload x)) = chatMessages (fst x)"
proof -
  obtain s w where x: "x = (s, w)"
    by (cases x)
  have "chatMessages (fst (loadWardrobe c reload (s\<lparr>loading := True\<rparr>, w'))) = chatMessages s"
    for w'
    by (simp add: loadWardrobe_chatMessages)
  then show ?thesis
    unfolding x
    by (simp add: extractItems_def Let_def split: response.splits option.splits prod.splits)
      (metis fst_conv)
qed

lemma answerAlert_chatMessages:
  "chatMessages (fst (answerAlert choice (extractItems c img context post reload) x)) =
   chatMessages (fst x)"
  using answerAlert_cases [of choice "extractItems c img context post reload" x]
  by (auto simp: extractItems_chatMessages)

lemma keptMessages_twice:
  "filter (\<lambda>m. (case msg_id m of None \<Rightarrow> False | Some i \<Rightarrow> notLoading i) \<and>
                (case msg_id m of None \<Rightarrow> False | Some i \<Rightarrow> notTransient i)) msgs =
   keptMessages msgs"
  unfolding keptMessages_def
  by (rule filter_cong) (auto split: option.splits dest: notTransient_notLoading)

lemma own_message_ids:
  "(case msg_id (userMessage c u t0) of None \<Rightarrow> False | Some i \<Rightarrow> notLoading i) = True"
  "(case msg_id (userMessage c u t0) of None \<Rightarrow> False | Some i \<Rightarrow> notTransient i) = True"
  "(case msg_id (loadingMessage u t0) of None \<Rightarrow> False | Some i \<Rightarrow> notLoading i) = False"
  "(case msg_id (typingMessage u t0) of None \<Rightarrow> False | Some i \<Rightarrow> notTransient i) = False"
proof -
  show "(case msg_id (userMessage c u t0) of None \<Rightarrow> False | Some i \<Rightarrow> notLoading i) = True"
    by (simp add: userMessage_def toString_notTransient)
  show "(case msg_id (userMessage c u t0) of None \<Rightarrow> False | Some i \<Rightarrow> notTransient i) = True"
    by (simp add: userMessage_def toString_notTransient)
  show "(case msg_id (loadingMessage u t0) of None \<Rightarrow> False | Some i \<Rightarrow> notLoading i) = False"
    by (simp add: loadingMessage_def notLoading_def startsWith_def)
  show "(case msg_id (typingMessage u t0) of None \<Rightarrow> False | Some i \<Rightarrow> notTransient i) = False"
    by (simp add: typingMessage_def notTransient_def startsWith_def)
qed

lemma own_messages_defined:
  "msg_id (userMessage c u t0) \<noteq> None" "msg_id (loadingMessage u t0) \<noteq> None"
  "msg_id (typingMessage u t0) \<noteq> None"
  by (simp_all add: userMessage_def loadingMessage_def typingMessage_def)

lemma sendMessage_prefix:
  assumes "\<forall>m\<in>set (chatMessages s). msg_id m \<noteq> None"
    and "chatMessages s2 = chatMessages s @ [userMessage c u t0] \<or>
         chatMessages s2 = chatMessages s @ [userMessage c u t0, loadingMessage u t0]"
  shows "filterById notLoading (chatMessages s2) =
           Inr (filter (\<lambda>m. case msg_id m of None \<Rightarrow> False | Some i \<Rightarrow> notLoading i)
                  (chatMessages s) @ [userMessage c u t0])"
    and "filterById notTransient
           ((filter (\<lambda>m. case msg_id m of None \<Rightarrow> False | Some i \<Rightarrow> notLoading i)
                  (chatMessages s) @ [userMessage c u t0]) @ [typingMessage u t0]) =
           Inr (keptMessages (chatMessages s) @ [userMessage c u t0])"
proof -
  have d2: "\<forall>m\<in>set (chatMessages s2). msg_id m \<noteq> None"
    using assms own_messages_defined by auto
  show "filterById notLoading (chatMessages s2) =
           Inr (filter (\<lambda>m. case msg_id m of None \<Rightarrow> False | Some i \<Rightarrow> notLoading i)
                  (chatMessages s) @ [userMessage c u t0])"
    unfolding filterById_defined [OF d2]
    using assms(2) by (auto simp: own_message_ids)
  let ?shown = "(filter (\<lambda>m. case msg_id m of None \<Rightarrow> False | Some i \<Rightarrow> notLoading i)
                  (chatMessages s) @ [userMessage c u t0]) @ [typingMessage u t0]"
  have d3: "\<forall>m\<in>set ?shown. msg_id m \<noteq> None"
    using assms(1) own_messages_defined by auto
  show "filterById notTransient ?shown = Inr (keptMessages (chatMessages s) @ [userMessage c u t0])"
    unfolding filterById_defined [OF d3]
    by (simp add: own_message_ids keptMessages_twice)
qed

text \<open>
  After a successful answer of the chat endpoint, for a signed-in user who typed a message
  or attached an image and whose chat holds only messages with ids, the chat consists of
  the earlier messages without typing indicator and loading notice, the user's message,
  and one message per chunk in the order of the answer. A message without an id, which the
  interface \<^verbatim>\<open>ChatMessage\<close> does not allow, makes the state update raise a TypeError
  (\<open>filterById_undefined\<close>).
\<close>

lemma sendMessage_appends:
  assumes "user c = Some u"
    and "trim (chatInput c) \<noteq> [] \<or> truthy (chatImage c)"
    and "\<forall>m\<in>set (chatMessages s). msg_id m \<noteq> None"
    and "ok status"
  shows "\<exists>s' w'.
           sendMessage c t0 tick choice post reload (Response status (Some data)) (s, w) =
             Inr (s', w') \<and>
           chatMessages s' =
             keptMessages (chatMessages s) @ [userMessage c u t0] @
             map (aiMessage u data tick) [0..<length (messageChunks data)]"
proof -
  let ?s1 = "s\<lparr>chatMessages := chatMessages s @ [userMessage c u t0]\<rparr>"
  let ?X = "case chatImage c of
              None \<Rightarrow> (?s1, w)
            | Some img \<Rightarrow>
                if img = [] then (?s1, w)
                else handleItemExtractionPermission c img (chatInput c)
                       (?s1\<lparr>chatMessages := chatMessages ?s1 @ [loadingMessage u t0]\<rparr>, w)"
  let ?answer = "case chatImage c of
                   None \<Rightarrow> id
                 | Some img \<Rightarrow>
                     if img = [] then id
                     else answerAlert choice (extractItems c img (chatInput c) post reload)"
  obtain s2 w2 where X: "?X = (s2, w2)"
    by (cases ?X)
  have cm: "chatMessages s2 = chatMessages s @ [userMessage c u t0] \<or>
            chatMessages s2 = chatMessages s @ [userMessage c u t0, loadingMessage u t0]"
  proof -
    have "chatMessages (fst ?X) = chatMessages s @ [userMessage c u t0] \<or>
          chatMessages (fst ?X) = chatMessages s @ [userMessage c u t0, loadingMessage u t0]"
      by (simp add: handleItemExtractionPermission_def split: option.splits)
    then show ?thesis
      unfolding X by simp
  qed
  note P = sendMessage_prefix [OF assms(3) cm]
  have go: "\<not> (trim (chatInput c) = [] \<and> \<not> truthy (chatImage c))"
    using assms(2) by blast
  have ans: "chatMessages (fst (?answer x)) = chatMessages (fst x)" for x
    by (simp add: answerAlert_chatMessages split: option.splits)
  let ?r = "(s2\<lparr>chatInput := [], chatImage := None,
                chatMessages := appendChunks u data tick
                                  (keptMessages (chatMessages s) @ [userMessage c u t0]),
                loading := False\<rparr>,
             send (PostChat (token c)
                     (if chatInput c = [] then ''Please analyze this image'' else chatInput c)) w2)"
  have "sendMessage c t0 tick choice post reload (Response status (Some data)) (s, w) =
        Inr (?answer ?r)"
    unfolding sendMessage_def Let_def prod.case if_not_P [OF go] assms(1) option.case X
    using assms(4) P by simp
  moreover have "chatMessages (fst (?answer ?r)) =
      keptMessages (chatMessages s) @ [userMessage c u t0] @
      map (aiMessage u data tick) [0..<length (messageChunks data)]"
    unfolding ans by (simp add: appendChunks_eq)
  ultimately show ?thesis
    by (cases "?answer ?r") auto
qed

text \<open>
  The messages that \<^verbatim>\<open>sendMessage\<close> leaves in the chat have ids again, when the answer
  has no \<^verbatim>\<open>message_ids\<close> or one for each chunk.
\<close>

lemma sendMessage_keeps_ids:
  assumes "user c = Some u"
    and "trim (chatInput c) \<noteq> [] \<or> truthy (chatImage c)"
    and "\<forall>m\<in>set (chatMessages s). msg_id m \<noteq> None"
    and "ok status"
    and "case data_message_ids data of
           None \<Rightarrow> True
         | Some ids \<Rightarrow> length (messageChunks data) \<le> length ids"
  shows "\<exists>s' w'.
           sendMessage c t0 tick choice post reload (Response status (Some data)) (s, w) =
             Inr (s', w') \<and>
           (\<forall>m\<in>set (chatMessages s'). msg_id m \<noteq> None)"
proof -
  from sendMessage_appends [OF assms(1-4), of t0 tick choice post reload data w]
  obtain s' w' where
    1: "sendMessage c t0 tick choice post reload (Response status (Some data)) (s, w) =
          Inr (s', w')"
    and 2: "chatMessages s' =
          keptMessages (chatMessages s) @ [userMessage c u t0] @
          map (aiMessage u data tick) [0..<length (messageChunks data)]"
    by blast
  have a: "\<forall>m\<in>set (keptMessages (chatMessages s)). msg_id m \<noteq> None"
    using assms(3) by (simp add: keptMessages_def)
  have b: "\<forall>i < length (messageChunks data). msg_id (aiMessage u data tick i) \<noteq> None"
    using assms(5) by (auto simp: aiMessage_def split: option.splits)
  have "\<forall>m\<in>set (chatMessages s'). msg_id m \<noteq> None"
    unfolding 2 using a b own_messages_defined(1) [of c u t0] by auto
  with 1 show ?thesis
    by blast
qed

lemma aiMessage_texts:
  "map message (map (aiMessage u data tick) [0..<length (messageChunks data)]) =
     messageChunks data"
proof -
  have "map message (map (aiMessage u data tick) [0..<length (messageChunks data)]) =
        map (\<lambda>i. messageChunks data ! i) [0..<length (messageChunks data)]"
    by (simp add: aiMessage_def)
  also have "\<dots> = messageChunks data"
    by (rule map_nth)
  finally show ?thesis .
qed

text \<open>
  \<^verbatim>\<open>trim\<close> takes away no-break spaces as well, so a message of white space only is not
  sent.
\<close>

lemma trim_white_space: "trim [CHR 0x20, CHR 0xA0, CHR 0x09, CHR 0x0A] = []"
  by (simp add: trim_def isSpace_def)

lemma sendMessage_white_space:
  "sendMessage (signedIn\<lparr>chatInput := [CHR 0xA0, CHR 0x20]\<rparr>) t0 tick choice post reload chat
     (s, w) = Inr (s, w)"
  by (simp add: sendMessage_def trim_def isSpace_def truthy_def signedIn_def initialState_def)

subsection \<open>Splitting a reply into chunks\<close>

lemma splitOn_nonempty: "splitOn d s \<noteq> []"
  by (induction d s rule: splitOn.induct) (auto split: list.splits)

lemma joinWith_Cons:
  "rest \<noteq> [] \<Longrightarrow> joinWith d ((c # chunk) # rest) = c # joinWith d (chunk # rest)"
  by (cases rest) simp_all

lemma joinWith_splitOn: "joinWith d (splitOn d s) = s"
proof (induction d s rule: splitOn.induct)
  case (1 d)
  then show ?case by simp
next
  case (2 d c cs)
  show ?case
  proof (cases "d \<noteq> [] \<and> take (length d) (c # cs) = d")
    case True
    obtain x xs where sp: "splitOn d (drop (length d) (c # cs)) = x # xs"
      using splitOn_nonempty [of d "drop (length d) (c # cs)"] by (cases "splitOn d (drop (length d) (c # cs))") auto
    have "joinWith d ([] # x # xs) = d @ joinWith d (x # xs)"
      by simp
    also have "\<dots> = d @ drop (length d) (c # cs)"
      using 2(1) [OF True] sp by simp
    also have "\<dots> = take (length d) (c # cs) @ drop (length d) (c # cs)"
      using True by simp
    also have "\<dots> = c # cs"
      by (rule append_take_drop_id)
    finally show ?thesis
      using True sp by simp
  next
    case False
    obtain x xs where sp: "splitOn d cs = x # xs"
      using splitOn_nonempty [of d cs] by (cases "splitOn d cs") auto
    have e: "splitOn d (c # cs) = (c # x) # xs"
      unfolding splitOn.simps if_not_P [OF False] sp by simp
    have "joinWith d ((c # x) # xs) = c # joinWith d (x # xs)"
      by (cases xs) simp_all
    then show ?thesis
      unfolding e using 2(2) [OF False] sp by simp
  qed
qed

lemma hd_splitOn_prefix: "take (length (hd (splitOn d s))) s = hd (splitOn d s)"
proof (induction d s rule: splitOn.induct)
  case (1 d)
  then show ?case by simp
next
  case (2 d c cs)
  show ?case
  proof (cases "d \<noteq> [] \<and> take (length d) (c # cs) = d")
    case True
    then show ?thesis by simp
  next
    case False
    obtain x xs where sp: "splitOn d cs = x # xs"
      using splitOn_nonempty [of d cs] by (cases "splitOn d cs") auto
    have e: "splitOn d (c # cs) = (c # x) # xs"
      unfolding splitOn.simps if_not_P [OF False] sp by simp
    show ?thesis
      unfolding e using 2(2) [OF False] sp by simp
  qed
qed

lemma containsAt_Nil: "d \<noteq> [] \<Longrightarrow> \<not> containsAt d []"
  by (auto simp: containsAt_def)

lemma containsAt_Cons:
  "containsAt d (c # str) \<longleftrightarrow> take (length d) (c # str) = d \<or> containsAt d str"
proof
  assume "containsAt d (c # str)"
  then obtain i where i: "i \<le> length (c # str)" "take (length d) (drop i (c # str)) = d"
    by (auto simp: containsAt_def)
  show "take (length d) (c # str) = d \<or> containsAt d str"
  proof (cases i)
    case 0
    with i show ?thesis by simp
  next
    case (Suc j)
    with i have "j \<le> length str" "take (length d) (drop j str) = d"
      by simp_all
    then show ?thesis
      by (auto simp: containsAt_def)
  qed
next
  assume "take (length d) (c # str) = d \<or> containsAt d str"
  then show "containsAt d (c # str)"
  proof
    assume "take (length d) (c # str) = d"
    then have "take (length d) (drop 0 (c # str)) = d"
      by simp
    then show ?thesis
      unfolding containsAt_def by (intro exI [of _ 0]) simp
  next
    assume "containsAt d str"
    then obtain i where "i \<le> length str" "take (length d) (drop i str) = d"
      by (auto simp: containsAt_def)
    then have "Suc i \<le> length (c # str) \<and> take (length d) (drop (Suc i) (c # str)) = d"
      by simp
    then show ?thesis
      unfolding containsAt_def by blast
  qed
qed

lemma prefix_starts:
  assumes "take (length x) s = x" and "take (length d) x = d"
  shows "take (length d) s = d"
proof -
  have "length (take (length d) x) = length d"
    using assms(2) by simp
  then have "length d \<le> length x"
    by simp
  then have "take (length d) s = take (length d) (take (length x) s)"
    by (simp add: min_def)
  then show ?thesis
    using assms by simp
qed

lemma splitOn_free:
  assumes "d \<noteq> []"
  shows "\<forall>chunk\<in>set (splitOn d s). \<not> containsAt d chunk"
  using assms
proof (induction d s rule: splitOn.induct)
  case (1 d)
  then show ?case
    by (simp add: containsAt_Nil)
next
  case (2 d c cs)
  show ?case
  proof (cases "d \<noteq> [] \<and> take (length d) (c # cs) = d")
    case True
    then show ?thesis
      using 2(1) [OF True] 2(3) by (simp add: containsAt_Nil)
  next
    case False
    obtain x xs where sp: "splitOn d cs = x # xs"
      using splitOn_nonempty [of d cs] by (cases "splitOn d cs") auto
    have e: "splitOn d (c # cs) = (c # x) # xs"
      unfolding splitOn.simps if_not_P [OF False] sp by simp
    have ih: "\<not> containsAt d x" "\<forall>chunk\<in>set xs. \<not> containsAt d chunk"
      using 2(2) [OF False 2(3)] sp by simp_all
    have "take (length x) cs = x"
      using hd_splitOn_prefix [of d cs] sp by simp
    then have p: "take (length (c # x)) (c # cs) = c # x"
      by simp
    have "take (length d) (c # x) \<noteq> d"
    proof
      assume "take (length d) (c # x) = d"
      from prefix_starts [OF p this] False 2(3) show False
        by simp
    qed
    then have "\<not> containsAt d (c # x)"
      using ih(1) by (simp add: containsAt_Cons)
    then show ?thesis
      unfolding e using ih(2) by simp
  qed
qed

lemma splitOn_exampleReply:
  "splitOn chunkDelimiter exampleReply = [''Try the navy polo!'', ''With blue jeans.'']"
  by (simp add: chunkDelimiter_def exampleReply_def)

text \<open>
  C4. The chunks of a reply are what splitting it at the delimiter gives: put together
  with the delimiter between them they are the reply again, and none of them contains the
  delimiter. For a signed-in user who typed a message or attached an image, and a chat
  whose messages have ids (as the interface declares and \<open>sendMessage_keeps_ids\<close>
  maintains), a successful answer that carries the chunks of a reply as its
  \<^verbatim>\<open>messages\<close> adds, after the user's message, one message per chunk, in the order of the
  chunks, with the chunk as its text; none of them is a user message, and the id of the
  \<open>i\<close>-th is the \<open>i\<close>-th entry of \<^verbatim>\<open>message_ids\<close> when that is present. A successful
  answer without \<^verbatim>\<open>messages\<close> adds one such message, whose text is the field
  \<^verbatim>\<open>message\<close>.
\<close>

theorem C4_chat_chunks_appended:
  assumes "user c = Some u"
    and "trim (chatInput c) \<noteq> [] \<or> truthy (chatImage c)"
    and "\<forall>m\<in>set (chatMessages s). msg_id m \<noteq> None"
    and "ok status"
    and "data_messages chunks = Some (splitOn chunkDelimiter reply)"
    and "data_messages single = None"
  shows "joinWith chunkDelimiter (splitOn chunkDelimiter reply) = reply \<and>
         (\<forall>chunk\<in>set (splitOn chunkDelimiter reply). \<not> containsAt chunkDelimiter chunk) \<and>
         (\<exists>s' w'.
            sendMessage c t0 tick choice post reload (Response status (Some chunks)) (s, w) =
              Inr (s', w') \<and>
            chatMessages s' =
              keptMessages (chatMessages s) @ [userMessage c u t0] @
              map (aiMessage u chunks tick) [0..<length (splitOn chunkDelimiter reply)]) \<and>
         map message (map (aiMessage u chunks tick) [0..<length (splitOn chunkDelimiter reply)]) =
           map Some (splitOn chunkDelimiter reply) \<and>
         (\<forall>i. \<not> is_user (aiMessage u chunks tick i)) \<and>
         (\<forall>ids i. data_message_ids chunks = Some ids \<and> i < length ids \<longrightarrow>
            msg_id (aiMessage u chunks tick i) = Some (ids ! i)) \<and>
         (\<exists>s' w'.
            sendMessage c t0 tick choice post reload (Response status (Some single)) (s, w) =
              Inr (s', w') \<and>
            chatMessages s' =
              keptMessages (chatMessages s) @ [userMessage c u t0, aiMessage u single tick 0]) \<and>
         message (aiMessage u single tick 0) = data_message single \<and>
         \<not> is_user (aiMessage u single tick 0)"
proof -
  have m1: "messageChunks chunks = map Some (splitOn chunkDelimiter reply)"
    using assms(5) by (simp add: messageChunks_def)
  have m2: "messageChunks single = [data_message single]"
    using assms(6) by (simp add: messageChunks_def)
  have 1: "joinWith chunkDelimiter (splitOn chunkDelimiter reply) = reply"
    by (rule joinWith_splitOn)
  have "chunkDelimiter \<noteq> []"
    by (simp add: chunkDelimiter_def)
  then have 2: "\<forall>chunk\<in>set (splitOn chunkDelimiter reply). \<not> containsAt chunkDelimiter chunk"
    by (rule splitOn_free)
  have 3: "\<exists>s' w'.
            sendMessage c t0 tick choice post reload (Response status (Some chunks)) (s, w) =
              Inr (s', w') \<and>
            chatMessages s' =
              keptMessages (chatMessages s) @ [userMessage c u t0] @
              map (aiMessage u chunks tick) [0..<length (splitOn chunkDelimiter reply)]"
    using sendMessage_appends [OF assms(1-4), of t0 tick choice post reload chunks w]
    by (simp add: m1)
  have 4: "map message (map (aiMessage u chunks tick) [0..<length (splitOn chunkDelimiter reply)]) =
           map Some (splitOn chunkDelimiter reply)"
    using aiMessage_texts [of u chunks tick] by (simp add: m1)
  have 5: "\<forall>i. \<not> is_user (aiMessage u chunks tick i)"
    by (simp add: aiMessage_def)
  have 6: "\<forall>ids i. data_message_ids chunks = Some ids \<and> i < length ids \<longrightarrow>
            msg_id (aiMessage u chunks tick i) = Some (ids ! i)"
    by (simp add: aiMessage_def)
  have 7: "\<exists>s' w'.
            sendMessage c t0 tick choice post reload (Response status (Some single)) (s, w) =
              Inr (s', w') \<and>
            chatMessages s' =
              keptMessages (chatMessages s) @ [userMessage c u t0, aiMessage u single tick 0]"
    using sendMessage_appends [OF assms(1-4), of t0 tick choice post reload single w]
    by (simp add: m2)
  have 8: "message (aiMessage u single tick 0) = data_message single"
    by (simp add: aiMessage_def m2)
  have 9: "\<not> is_user (aiMessage u single tick 0)"
    by (simp add: aiMessage_def)
  from 1 2 3 4 5 6 7 8 9 show ?thesis
    by (intro conjI)
qed

theorem C4_chat_chunks_appended_witness:
  "(\<exists>s' w'.
      sendMessage asking 1704569400000 everySecond Dismissed Rejected Rejected
        (Response 200 (Some chunked)) (asking, emptyWorld) = Inr (s', w') \<and>
      map message (chatMessages s') =
        [Some ''Hello'', Some ''What should I wear?'', Some ''Try the navy polo!'',
         Some ''With blue jeans.''] \<and>
      map is_user (chatMessages s') = [True, True, False, False] \<and>
      map msg_id (drop 2 (chatMessages s')) = [Some ''a1'', Some ''a2'']) \<and>
   (\<exists>s' w'.
      sendMessage asking 1704569400000 everySecond Dismissed Rejected Rejected
        (Response 200 (Some unchunked)) (asking, emptyWorld) = Inr (s', w') \<and>
      map message (chatMessages s') =
        [Some ''Hello'', Some ''What should I wear?'', Some ''Try the navy polo!'']) \<and>
   joinWith chunkDelimiter [''Try the navy polo!'', ''With blue jeans.''] = exampleReply"
proof -
  have u: "user asking = Some asha"
    by (simp add: asking_def signedIn_def asha_def)
  have i: "trim (chatInput asking) \<noteq> [] \<or> truthy (chatImage asking)"
    by (simp add: asking_def trim_def isSpace_def)
  have d: "\<forall>m\<in>set (chatMessages asking). msg_id m \<noteq> None"
    by (simp add: asking_def oldMessage_def)
  have o: "ok 200"
    by (simp add: ok_def)
  have c: "data_messages chunked = Some (splitOn chunkDelimiter exampleReply)"
    by (simp add: chunked_def splitOn_exampleReply)
  have n: "data_messages unchunked = None"
    by (simp add: unchunked_def)
  note C = C4_chat_chunks_appended [OF u i d o c n, of 1704569400000 everySecond Dismissed
      Rejected Rejected emptyWorld]
  have k: "keptMessages (chatMessages asking) = [oldMessage]"
    by (simp add: keptMessages_def asking_def oldMessage_def notTransient_def startsWith_def)
  have m: "message oldMessage = Some ''Hello''" "is_user oldMessage"
    "message (userMessage asking asha 1704569400000) = Some ''What should I wear?''"
    "is_user (userMessage asking asha 1704569400000)"
    by (simp_all add: oldMessage_def userMessage_def asking_def)
  have l: "[0..<2] = [0, Suc 0]"
    by (simp add: upt_rec)
  from C obtain s' w' where
    1: "sendMessage asking 1704569400000 everySecond Dismissed Rejected Rejected
          (Response 200 (Some chunked)) (asking, emptyWorld) = Inr (s', w')"
    and 2: "chatMessages s' =
          keptMessages (chatMessages asking) @ [userMessage asking asha 1704569400000] @
          map (aiMessage asha chunked everySecond)
            [0..<length (splitOn chunkDelimiter exampleReply)]"
    by blast
  have A: "\<exists>s' w'.
      sendMessage asking 1704569400000 everySecond Dismissed Rejected Rejected
        (Response 200 (Some chunked)) (asking, emptyWorld) = Inr (s', w') \<and>
      map message (chatMessages s') =
        [Some ''Hello'', Some ''What should I wear?'', Some ''Try the navy polo!'',
         Some ''With blue jeans.''] \<and>
      map is_user (chatMessages s') = [True, True, False, False] \<and>
      map msg_id (drop 2 (chatMessages s')) = [Some ''a1'', Some ''a2'']"
  proof (intro exI conjI)
    show "sendMessage asking 1704569400000 everySecond Dismissed Rejected Rejected
        (Response 200 (Some chunked)) (asking, emptyWorld) = Inr (s', w')"
      by (rule 1)
    show "map message (chatMessages s') =
        [Some ''Hello'', Some ''What should I wear?'', Some ''Try the navy polo!'',
         Some ''With blue jeans.'']"
      unfolding 2 k splitOn_exampleReply
      by (simp add: m l aiMessage_def messageChunks_def chunked_def)
    show "map is_user (chatMessages s') = [True, True, False, False]"
      unfolding 2 k splitOn_exampleReply by (simp add: m l aiMessage_def)
    show "map msg_id (drop 2 (chatMessages s')) = [Some ''a1'', Some ''a2'']"
      unfolding 2 k splitOn_exampleReply by (simp add: l aiMessage_def chunked_def)
  qed
  from C obtain s'' w'' where
    3: "sendMessage asking 1704569400000 everySecond Dismissed Rejected Rejected
          (Response 200 (Some unchunked)) (asking, emptyWorld) = Inr (s'', w'')"
    and 4: "chatMessages s'' =
          keptMessages (chatMessages asking) @
          [userMessage asking asha 1704569400000, aiMessage asha unchunked everySecond 0]"
    by blast
  have B: "\<exists>s' w'.
      sendMessage asking 1704569400000 everySecond Dismissed Rejected Rejected
        (Response 200 (Some unchunked)) (asking, emptyWorld) = Inr (s', w') \<and>
      map message (chatMessages s') =
        [Some ''Hello'', Some ''What should I wear?'', Some ''Try the navy polo!'']"
  proof (intro exI conjI)
    show "sendMessage asking 1704569400000 everySecond Dismissed Rejected Rejected
        (Response 200 (Some unchunked)) (asking, emptyWorld) = Inr (s'', w'')"
      by (rule 3)
    show "map message (chatMessages s'') =
        [Some ''Hello'', Some ''What should I wear?'', Some ''Try the navy polo!'']"
      unfolding 4 k by (simp add: m aiMessage_def messageChunks_def unchunked_def)
  qed
  have "joinWith chunkDelimiter (splitOn chunkDelimiter exampleReply) = exampleReply"
    using C by blast
  then have D: "joinWith chunkDelimiter [''Try the navy polo!'', ''With blue jeans.''] = exampleReply"
    unfolding splitOn_exampleReply .
  from A B D show ?thesis
    by (intro conjI)
qed

end
